theory Spec2Isabelle
  imports Main "HOL-Library.Word"
begin

unbundle bit_operations_syntax

section \<open>Data model\<close>

type_synonym u8 = "8 word"
type_synonym u16 = "16 word"
type_synonym u32 = "32 word"
type_synonym u64 = "64 word"

text \<open>
  A Go \<open>float32\<close> or \<open>float64\<close> is carried as its IEEE-754 bit pattern, so that
  \<open>math.Float64bits\<close> and \<open>math.Float64frombits\<close> are the identity and "bitwise equal"
  is plain equality. The floating-point operations the engine performs are not
  interpreted: they are the fields of a record \<open>fpu\<close> that every function using them takes
  as its first argument, and the general theorems hold for every such record.
\<close>

type_synonym f32 = "32 word"
type_synonym f64 = "64 word"

record fpu =
  f64_div_int :: "int \<Rightarrow> int \<Rightarrow> f64"  \<comment> \<open>\<open>float64(a) / float64(b)\<close>\<close>
  f64_inc :: "f64 \<Rightarrow> f64"               \<comment> \<open>\<open>x++\<close>\<close>
  f64_sub :: "f64 \<Rightarrow> f64 \<Rightarrow> f64"       \<comment> \<open>\<open>x - y\<close>\<close>
  f64_ge :: "f64 \<Rightarrow> f64 \<Rightarrow> bool"       \<comment> \<open>\<open>x >= y\<close>\<close>
  f32_add :: "f32 \<Rightarrow> f32 \<Rightarrow> f32"       \<comment> \<open>\<open>x + y\<close>\<close>
  f32_mul :: "f32 \<Rightarrow> f32 \<Rightarrow> f32"       \<comment> \<open>\<open>x * y\<close>\<close>
  f32_db :: "nat \<Rightarrow> f32"                \<comment> \<open>\<open>float32(math.Pow(10, -2.0*float64(i)/20.0))\<close>\<close>

text \<open>
  The fixed-size arrays \<open>[3]T\<close> and \<open>[4]T\<close> are tuples. Every index the source uses is
  in range: the loops run over \<open>0..2\<close> or \<open>0..3\<close>, \<open>Write\<close> indexes \<open>toneReg\<close> under the
  guard \<open>latchedChannel < 3\<close> and \<open>volume\<close> with a value masked by \<open>0x03\<close>.
\<close>

type_synonym 'a arr3 = "'a \<times> 'a \<times> 'a"
type_synonym 'a arr4 = "'a \<times> 'a \<times> 'a \<times> 'a"

fun get3 :: "'a arr3 \<Rightarrow> nat \<Rightarrow> 'a" where
  "get3 (a, b, c) i = (if i = 0 then a else if i = 1 then b else c)"

fun set3 :: "'a arr3 \<Rightarrow> nat \<Rightarrow> 'a \<Rightarrow> 'a arr3" where
  "set3 (a, b, c) i v =
     (if i = 0 then (v, b, c) else if i = 1 then (a, v, c)
      else if i = 2 then (a, b, v) else (a, b, c))"

fun get4 :: "'a arr4 \<Rightarrow> nat \<Rightarrow> 'a" where
  "get4 (a, b, c, d) i = (if i = 0 then a else if i = 1 then b else if i = 2 then c else d)"

fun set4 :: "'a arr4 \<Rightarrow> nat \<Rightarrow> 'a \<Rightarrow> 'a arr4" where
  "set4 (a, b, c, d) i v =
     (if i = 0 then (v, b, c, d) else if i = 1 then (a, v, c, d)
      else if i = 2 then (a, b, v, d) else if i = 3 then (a, b, c, v) else (a, b, c, d))"

datatype ToneZero = ToneZeroAsOne | ToneZeroAs1024

record Config =
  LFSRBits :: int
  WhiteNoiseTaps :: u16
  ToneZero :: ToneZero

definition Sega :: Config where
  "Sega = \<lparr>LFSRBits = 16, WhiteNoiseTaps = 0x0009, ToneZero = ToneZeroAsOne\<rparr>"

definition TI :: Config where
  "TI = \<lparr>LFSRBits = 15, WhiteNoiseTaps = 0x0003, ToneZero = ToneZeroAs1024\<rparr>"

text \<open>
  The struct \<open>SN76489\<close>. \<open>clockDivider\<close> and \<open>bufferPos\<close> are Go \<open>int\<close>s that the code
  only sets to 0, increments, or (for \<open>clockDivider\<close>) loads from a sign-extended 32-bit
  value, so they are an \<open>int\<close> and a \<open>nat\<close>. \<open>feedbackShift\<close> is a \<open>uint\<close> used only as a
  shift count.
\<close>

record SN76489 =
  toneReg :: "u16 arr3"
  toneCounter :: "u16 arr3"
  toneOutput :: "bool arr3"
  noiseReg :: u8
  noiseCounter :: u16
  noiseShift :: u16
  noiseToggle :: bool
  noiseOut :: bool
  volume :: "u8 arr4"
  latchedChannel :: u8
  latchedType :: u8
  feedbackShift :: nat
  lfsrInitial :: u16
  whiteNoiseTaps :: u16
  toneZeroValue :: u16
  clocksPerSample :: f64
  clockCounter :: f64
  clockDivider :: int
  gain :: f32
  channelBuffers :: "f32 list arr4"
  mixBuffer :: "f32 list"
  bufferPos :: nat

section \<open>Construction and reset\<close>

text \<open>The volume table filled by \<open>init\<close>: fifteen computed entries, then \<open>0.0\<close>.\<close>

definition volumeTable :: "fpu \<Rightarrow> f32 list" where
  "volumeTable fp = map (f32_db fp) [0..<15] @ [0]"

text \<open>The \<open>float32\<close> constant \<open>0.25\<close>.\<close>

definition f32_quarter :: f32 where
  "f32_quarter = 0x3E800000"

text \<open>
  \<open>New\<close>. \<open>uint(config.LFSRBits - 1)\<close> wraps a negative value to a 64-bit unsigned one,
  and a \<open>uint16\<close> shifted left by 16 or more is 0, as \<open>push_bit\<close> on a \<open>16 word\<close> is.
  \<open>bufferSize\<close> is a \<open>nat\<close>: \<open>make\<close> panics on a negative length.
\<close>

definition New :: "fpu \<Rightarrow> int \<Rightarrow> int \<Rightarrow> nat \<Rightarrow> Config \<Rightarrow> SN76489" where
  "New fp clockFreq sampleRate bufferSize config =
     (let fs = unat (word_of_int (LFSRBits config - 1) :: u64);
          li = push_bit fs (1 :: u16);
          tz = (if ToneZero config = ToneZeroAs1024 then 1024 else 1)
      in \<lparr>toneReg = (0, 0, 0),
          toneCounter = (0, 0, 0),
          toneOutput = (False, False, False),
          noiseReg = 0,
          noiseCounter = 0,
          noiseShift = li,
          noiseToggle = False,
          noiseOut = False,
          volume = (0x0F, 0x0F, 0x0F, 0x0F),
          latchedChannel = 0,
          latchedType = 0,
          feedbackShift = fs,
          lfsrInitial = li,
          whiteNoiseTaps = WhiteNoiseTaps config,
          toneZeroValue = tz,
          clocksPerSample = f64_div_int fp clockFreq sampleRate,
          clockCounter = 0,
          clockDivider = 0,
          gain = f32_quarter,
          channelBuffers = (replicate bufferSize 0, replicate bufferSize 0,
                            replicate bufferSize 0, replicate bufferSize 0),
          mixBuffer = replicate bufferSize 0,
          bufferPos = 0\<rparr>)"

definition Reset :: "SN76489 \<Rightarrow> SN76489" where
  "Reset s = s\<lparr>toneReg := (0, 0, 0),
               toneCounter := (0, 0, 0),
               toneOutput := (False, False, False),
               noiseReg := 0,
               noiseCounter := 0,
               noiseShift := lfsrInitial s,
               noiseToggle := False,
               noiseOut := False,
               volume := (0x0F, 0x0F, 0x0F, 0x0F),
               latchedChannel := 0,
               latchedType := 0,
               clockDivider := 0,
               clockCounter := 0,
               bufferPos := 0\<rparr>"

section \<open>The write port\<close>

definition Write :: "u8 \<Rightarrow> SN76489 \<Rightarrow> SN76489" where
  "Write v s =
     (if v AND 0x80 \<noteq> 0 then
        (let s1 = s\<lparr>latchedChannel := drop_bit 5 v AND 0x03,
                     latchedType := drop_bit 4 v AND 0x01\<rparr>;
             data = v AND 0x0F;
             ch = unat (latchedChannel s1)
         in if latchedType s1 = 1 then
              s1\<lparr>volume := set4 (volume s1) ch data\<rparr>
            else if latchedChannel s1 < 3 then
              s1\<lparr>toneReg := set3 (toneReg s1) ch ((get3 (toneReg s1) ch AND 0x3F0) OR ucast data)\<rparr>
            else
              s1\<lparr>noiseReg := data AND 0x07, noiseShift := lfsrInitial s1\<rparr>)
      else if latchedType s = 0 then
        (let ch = unat (latchedChannel s)
         in if latchedChannel s < 3 then
              (let data = (ucast (v AND 0x3F) :: u16)
               in s\<lparr>toneReg := set3 (toneReg s) ch ((get3 (toneReg s) ch AND 0x0F) OR push_bit 4 data)\<rparr>)
            else
              s\<lparr>noiseReg := v AND 0x07, noiseShift := lfsrInitial s\<rparr>)
      else s)"

section \<open>The clock\<close>

text \<open>One pass of the loop over the tone channels in \<open>Clock\<close>.\<close>

definition clock_tone :: "nat \<Rightarrow> SN76489 \<Rightarrow> SN76489" where
  "clock_tone i s =
     (if get3 (toneCounter s) i > 0 then
        s\<lparr>toneCounter := set3 (toneCounter s) i (get3 (toneCounter s) i - 1)\<rparr>
      else
        s\<lparr>toneCounter := set3 (toneCounter s) i
              (if get3 (toneReg s) i = 0 then toneZeroValue s else get3 (toneReg s) i),
          toneOutput := set3 (toneOutput s) i (\<not> get3 (toneOutput s) i)\<rparr>)"

text \<open>The \<open>switch rate\<close> that reloads the noise counter.\<close>

definition noise_reload :: "SN76489 \<Rightarrow> u16" where
  "noise_reload s =
     (let rate = noiseReg s AND 0x03
      in if rate = 0 then 0x10
         else if rate = 1 then 0x20
         else if rate = 2 then 0x40
         else if rate = 3 then
           (if get3 (toneReg s) 2 = 0 then toneZeroValue s else get3 (toneReg s) 2)
         else noiseCounter s)"

text \<open>The feedback bit, already shifted into place.\<close>

definition lfsr_feedback :: "SN76489 \<Rightarrow> u16" where
  "lfsr_feedback s =
     (if noiseReg s AND 0x04 \<noteq> 0 then
        (let t0 = noiseShift s AND whiteNoiseTaps s;
             t1 = t0 XOR drop_bit 8 t0;
             t2 = t1 XOR drop_bit 4 t1;
             t3 = t2 XOR drop_bit 2 t2;
             t4 = t3 XOR drop_bit 1 t3
         in push_bit (feedbackShift s) (t4 AND 1))
      else push_bit (feedbackShift s) (noiseShift s AND 1))"

text \<open>The body of \<open>if s.noiseToggle\<close>: capture the output bit, then shift.\<close>

definition lfsr_shift :: "SN76489 \<Rightarrow> SN76489" where
  "lfsr_shift s =
     s\<lparr>noiseOut := (noiseShift s AND 1 \<noteq> 0),
       noiseShift := drop_bit 1 (noiseShift s) OR lfsr_feedback s\<rparr>"

definition clock_noise :: "SN76489 \<Rightarrow> SN76489" where
  "clock_noise s =
     (if noiseCounter s > 0 then s\<lparr>noiseCounter := noiseCounter s - 1\<rparr>
      else
        (let s1 = s\<lparr>noiseCounter := noise_reload s\<rparr>;
             s2 = s1\<lparr>noiseToggle := \<not> noiseToggle s1\<rparr>
         in if noiseToggle s2 then lfsr_shift s2 else s2))"

definition Clock :: "SN76489 \<Rightarrow> SN76489" where
  "Clock s =
     (let s1 = s\<lparr>clockDivider := clockDivider s + 1\<rparr>
      in if clockDivider s1 < 16 then s1
         else clock_noise (fold clock_tone [0, 1, 2] (s1\<lparr>clockDivider := 0\<rparr>)))"

section \<open>Mixing and the frame driver\<close>

text \<open>\<open>volumeTable[v]\<close>: an index of 16 or more panics, which is \<open>None\<close>.\<close>

definition vol_lookup :: "fpu \<Rightarrow> u8 \<Rightarrow> f32 option" where
  "vol_lookup fp v = (if unat v < 16 then Some (volumeTable fp ! unat v) else None)"

definition sample_add :: "fpu \<Rightarrow> bool \<Rightarrow> u8 \<Rightarrow> f32 \<Rightarrow> f32 option" where
  "sample_add fp out v sample =
     (if out then map_option (f32_add fp sample) (vol_lookup fp v) else Some sample)"

definition Sample :: "fpu \<Rightarrow> SN76489 \<Rightarrow> f32 option" where
  "Sample fp s =
     Option.bind
       (fold (\<lambda>i acc. Option.bind acc (sample_add fp (get3 (toneOutput s) i) (get4 (volume s) i)))
          [0, 1, 2] (Some 0))
       (\<lambda>t. map_option (\<lambda>sample. f32_mul fp sample (gain s))
               (sample_add fp (noiseOut s) (get4 (volume s) 3) t))"

definition ResetBuffer :: "SN76489 \<Rightarrow> SN76489" where
  "ResetBuffer s = s\<lparr>bufferPos := 0\<rparr>"

definition SetGain :: "f32 \<Rightarrow> SN76489 \<Rightarrow> SN76489" where
  "SetGain g s = s\<lparr>gain := g\<rparr>"

text \<open>The value stored for one channel, and the store itself (out of range panics).\<close>

definition chan_value :: "fpu \<Rightarrow> bool \<Rightarrow> u8 \<Rightarrow> f32 option" where
  "chan_value fp out v = (if out then vol_lookup fp v else Some 0)"

definition store :: "f32 list \<Rightarrow> nat \<Rightarrow> f32 \<Rightarrow> f32 list option" where
  "store buf pos x = (if pos < length buf then Some (buf[pos := x]) else None)"

definition emit_chan :: "fpu \<Rightarrow> nat \<Rightarrow> bool \<Rightarrow> SN76489 \<Rightarrow> SN76489 option" where
  "emit_chan fp ch out s =
     Option.bind (chan_value fp out (get4 (volume s) ch)) (\<lambda>x.
       map_option (\<lambda>b. s\<lparr>channelBuffers := set4 (channelBuffers s) ch b\<rparr>)
         (store (get4 (channelBuffers s) ch) (bufferPos s) x))"

definition emit_sample :: "fpu \<Rightarrow> SN76489 \<Rightarrow> SN76489 option" where
  "emit_sample fp s =
     Option.bind
       (fold (\<lambda>ch acc. Option.bind acc (\<lambda>t. emit_chan fp ch (get3 (toneOutput t) ch) t))
          [0, 1, 2] (Some s))
       (\<lambda>t. map_option (\<lambda>u. u\<lparr>bufferPos := bufferPos u + 1\<rparr>) (emit_chan fp 3 (noiseOut t) t))"

text \<open>One iteration of the loop of \<open>Run\<close>, on the engine and the count of dropped samples.\<close>

definition run_step :: "fpu \<Rightarrow> SN76489 \<times> nat \<Rightarrow> (SN76489 \<times> nat) option" where
  "run_step fp sd =
     (let s1 = Clock (fst sd);
          s2 = s1\<lparr>clockCounter := f64_inc fp (clockCounter s1)\<rparr>
      in if f64_ge fp (clockCounter s2) (clocksPerSample s2) then
           (let s3 = s2\<lparr>clockCounter := f64_sub fp (clockCounter s2) (clocksPerSample s2)\<rparr>
            in if bufferPos s3 < length (mixBuffer s3) then
                 map_option (\<lambda>s4. (s4, snd sd)) (emit_sample fp s3)
               else Some (s3, snd sd + 1))
         else Some (s2, snd sd))"

fun run_loop :: "fpu \<Rightarrow> nat \<Rightarrow> SN76489 \<times> nat \<Rightarrow> (SN76489 \<times> nat) option" where
  "run_loop fp 0 sd = Some sd"
| "run_loop fp (Suc n) sd = Option.bind (run_step fp sd) (run_loop fp n)"

text \<open>\<open>Run\<close> returns the engine and \<open>dropped\<close>; a negative \<open>clocks\<close> runs no iteration.\<close>

definition Run :: "fpu \<Rightarrow> int \<Rightarrow> SN76489 \<Rightarrow> (SN76489 \<times> nat) option" where
  "Run fp clocks s = run_loop fp (nat clocks) (s, 0)"

definition GenerateSamples :: "fpu \<Rightarrow> int \<Rightarrow> SN76489 \<Rightarrow> (SN76489 \<times> nat) option" where
  "GenerateSamples fp clocks s = Run fp clocks (ResetBuffer s)"

section \<open>State snapshot\<close>

datatype error =
  SerializeBufferTooSmall     \<comment> \<open>"sn76489: serialize buffer too small"\<close>
| DeserializeBufferTooSmall   \<comment> \<open>"sn76489: deserialize buffer too small"\<close>
| UnsupportedVersion          \<comment> \<open>"sn76489: unsupported serialize version"\<close>

definition serializeVersion :: u8 where
  "serializeVersion = 1"

definition sn76489SerializeSize :: nat where
  "sn76489SerializeSize = 40"

definition boolByte :: "bool \<Rightarrow> u8" where
  "boolByte b = (if b then 1 else 0)"

text \<open>
  \<open>binary.LittleEndian\<close> on the slice \<open>buf[off:]\<close>. Both callers have checked that the
  buffer holds 40 bytes, and the largest offset written or read is 39.
\<close>

definition PutUint16 :: "u8 list \<Rightarrow> nat \<Rightarrow> u16 \<Rightarrow> u8 list" where
  "PutUint16 buf off v = buf[off := ucast v, off + 1 := ucast (drop_bit 8 v)]"

definition PutUint32 :: "u8 list \<Rightarrow> nat \<Rightarrow> u32 \<Rightarrow> u8 list" where
  "PutUint32 buf off v =
     buf[off := ucast v, off + 1 := ucast (drop_bit 8 v),
         off + 2 := ucast (drop_bit 16 v), off + 3 := ucast (drop_bit 24 v)]"

definition PutUint64 :: "u8 list \<Rightarrow> nat \<Rightarrow> u64 \<Rightarrow> u8 list" where
  "PutUint64 buf off v =
     buf[off := ucast v, off + 1 := ucast (drop_bit 8 v),
         off + 2 := ucast (drop_bit 16 v), off + 3 := ucast (drop_bit 24 v),
         off + 4 := ucast (drop_bit 32 v), off + 5 := ucast (drop_bit 40 v),
         off + 6 := ucast (drop_bit 48 v), off + 7 := ucast (drop_bit 56 v)]"

definition Uint16 :: "u8 list \<Rightarrow> nat \<Rightarrow> u16" where
  "Uint16 buf off = ucast (buf ! off) OR push_bit 8 (ucast (buf ! (off + 1)))"

definition Uint32 :: "u8 list \<Rightarrow> nat \<Rightarrow> u32" where
  "Uint32 buf off =
     ucast (buf ! off) OR push_bit 8 (ucast (buf ! (off + 1)))
       OR push_bit 16 (ucast (buf ! (off + 2))) OR push_bit 24 (ucast (buf ! (off + 3)))"

definition Uint64 :: "u8 list \<Rightarrow> nat \<Rightarrow> u64" where
  "Uint64 buf off =
     ucast (buf ! off) OR push_bit 8 (ucast (buf ! (off + 1)))
       OR push_bit 16 (ucast (buf ! (off + 2))) OR push_bit 24 (ucast (buf ! (off + 3)))
       OR push_bit 32 (ucast (buf ! (off + 4))) OR push_bit 40 (ucast (buf ! (off + 5)))
       OR push_bit 48 (ucast (buf ! (off + 6))) OR push_bit 56 (ucast (buf ! (off + 7)))"

text \<open>
  \<open>Serialize\<close> writes into the caller's buffer and returns an error or \<open>nil\<close>: the model
  returns the buffer after the call and the error. The field that \<open>serialize.go\<close> calls
  \<open>noiseOutput\<close> is the captured noise output bit, declared \<open>noiseOut\<close> in the struct.
  \<open>uint32(int32(s.clockDivider))\<close> keeps the low 32 bits.
\<close>

definition Serialize :: "SN76489 \<Rightarrow> u8 list \<Rightarrow> u8 list \<times> error option" where
  "Serialize s buf =
     (if length buf < sn76489SerializeSize then (buf, Some SerializeBufferTooSmall)
      else
        (let b0 = buf[0 := serializeVersion];
             b1 = fold (\<lambda>i b. PutUint16 b (1 + i * 2) (get3 (toneReg s) i)) [0, 1, 2] b0;
             b2 = fold (\<lambda>i b. PutUint16 b (7 + i * 2) (get3 (toneCounter s) i)) [0, 1, 2] b1;
             b3 = fold (\<lambda>i b. b[13 + i := boolByte (get3 (toneOutput s) i)]) [0, 1, 2] b2;
             b4 = b3[16 := noiseReg s];
             b5 = PutUint16 b4 17 (noiseCounter s);
             b6 = PutUint16 b5 19 (noiseShift s);
             b7 = b6[21 := boolByte (noiseOut s)];
             b8 = fold (\<lambda>i b. b[22 + i := get4 (volume s) i]) [0, 1, 2, 3] b7;
             b9 = b8[26 := latchedChannel s];
             b10 = b9[27 := latchedType s];
             b11 = PutUint32 b10 28 (word_of_int (clockDivider s));
             b12 = PutUint64 b11 32 (clockCounter s)
         in (b12, None)))"

text \<open>
  \<open>Deserialize\<close> changes the engine in place and returns an error or \<open>nil\<close>: the model
  returns the engine after the call and the error. \<open>int(int32(...))\<close> sign-extends.
\<close>

definition Deserialize :: "u8 list \<Rightarrow> SN76489 \<Rightarrow> SN76489 \<times> error option" where
  "Deserialize buf s =
     (if length buf < sn76489SerializeSize then (s, Some DeserializeBufferTooSmall)
      else if buf ! 0 \<noteq> serializeVersion then (s, Some UnsupportedVersion)
      else
        (let s1 = fold (\<lambda>i t. t\<lparr>toneReg := set3 (toneReg t) i (Uint16 buf (1 + i * 2))\<rparr>) [0, 1, 2] s;
             s2 = fold (\<lambda>i t. t\<lparr>toneCounter := set3 (toneCounter t) i (Uint16 buf (7 + i * 2))\<rparr>)
                    [0, 1, 2] s1;
             s3 = fold (\<lambda>i t. t\<lparr>toneOutput := set3 (toneOutput t) i (buf ! (13 + i) \<noteq> 0)\<rparr>)
                    [0, 1, 2] s2;
             s4 = s3\<lparr>noiseReg := buf ! 16\<rparr>;
             s5 = s4\<lparr>noiseCounter := Uint16 buf 17\<rparr>;
             s6 = s5\<lparr>noiseShift := Uint16 buf 19\<rparr>;
             s7 = s6\<lparr>noiseOut := (buf ! 21 \<noteq> 0)\<rparr>;
             s8 = fold (\<lambda>i t. t\<lparr>volume := set4 (volume t) i (buf ! (22 + i))\<rparr>) [0, 1, 2, 3] s7;
             s9 = s8\<lparr>latchedChannel := buf ! 26\<rparr>;
             s10 = s9\<lparr>latchedType := buf ! 27\<rparr>;
             s11 = s10\<lparr>clockDivider := sint (Uint32 buf 28)\<rparr>;
             s12 = s11\<lparr>clockCounter := Uint64 buf 32\<rparr>
         in (s12\<lparr>bufferPos := 0\<rparr>, None)))"

section \<open>Scripts and reachable states\<close>

text \<open>A script is a list of calls; it stops with \<open>None\<close> where a call panics.\<close>

datatype call = CallClock | CallWrite u8 | CallRun int

fun run_call :: "fpu \<Rightarrow> call \<Rightarrow> SN76489 \<Rightarrow> SN76489 option" where
  "run_call fp CallClock s = Some (Clock s)"
| "run_call fp (CallWrite v) s = Some (Write v s)"
| "run_call fp (CallRun n) s = map_option fst (Run fp n s)"

fun run_script :: "fpu \<Rightarrow> call list \<Rightarrow> SN76489 \<Rightarrow> SN76489 option" where
  "run_script fp [] s = Some s"
| "run_script fp (c # cs) s = Option.bind (run_call fp c s) (run_script fp cs)"

text \<open>The states an engine built by \<open>New\<close> reaches by writes and clocks alone.\<close>

inductive reach_wc :: "SN76489 \<Rightarrow> SN76489 \<Rightarrow> bool" for n :: SN76489 where
  wc_New: "reach_wc n n"
| wc_Write: "reach_wc n s \<Longrightarrow> reach_wc n (Write v s)"
| wc_Clock: "reach_wc n s \<Longrightarrow> reach_wc n (Clock s)"

text \<open>
  The states an engine of variant \<open>cfg\<close> reaches by every call of the API except
  \<open>Deserialize\<close>.
\<close>

inductive reachable :: "fpu \<Rightarrow> Config \<Rightarrow> SN76489 \<Rightarrow> bool" for fp :: fpu and cfg :: Config where
  r_New: "reachable fp cfg (New fp clockFreq sampleRate bufferSize cfg)"
| r_Reset: "reachable fp cfg s \<Longrightarrow> reachable fp cfg (Reset s)"
| r_Write: "reachable fp cfg s \<Longrightarrow> reachable fp cfg (Write v s)"
| r_Clock: "reachable fp cfg s \<Longrightarrow> reachable fp cfg (Clock s)"
| r_ResetBuffer: "reachable fp cfg s \<Longrightarrow> reachable fp cfg (ResetBuffer s)"
| r_SetGain: "reachable fp cfg s \<Longrightarrow> reachable fp cfg (SetGain g s)"
| r_Run: "reachable fp cfg s \<Longrightarrow> Run fp clocks s = Some (s', d) \<Longrightarrow> reachable fp cfg s'"
| r_GenerateSamples:
    "reachable fp cfg s \<Longrightarrow> GenerateSamples fp clocks s = Some (s', d) \<Longrightarrow> reachable fp cfg s'"

text \<open>
  One internal tick: what \<open>Clock\<close> does on the sixteenth input clock, after the prescaler
  has wrapped.
\<close>

definition internal_tick :: "SN76489 \<Rightarrow> SN76489" where
  "internal_tick s = clock_noise (fold clock_tone [0, 1, 2] s)"

section \<open>A floating-point unit for running traces\<close>

text \<open>
  To run the engine on concrete inputs the operations of \<open>fpu\<close> need values. \<open>fpu_small\<close>
  is IEEE-754 arithmetic on the operands and results that are non-negative integers below
  \<open>2^53\<close> (binary64) or \<open>2^24\<close> (binary32): there every operation is exact, so rounding
  plays no part. Outside that domain \<open>fpu_small\<close> does not model IEEE arithmetic: it
  returns the quiet-NaN pattern, and \<open>False\<close> for a comparison. The traces below stay
  inside the domain (they use only 0.0 and 1.0).
\<close>

fun ilog2 :: "nat \<Rightarrow> nat" where
  "ilog2 n = (if n < 2 then 0 else Suc (ilog2 (n div 2)))"

declare ilog2.simps [simp del]

text \<open>
  The bit pattern of the integer \<open>n\<close> in a format with \<open>m\<close> fraction bits and bias \<open>b\<close>:
  the biased exponent above the fraction, the leading 1 of the significand dropped.
\<close>

definition fp_of_nat :: "nat \<Rightarrow> nat \<Rightarrow> nat \<Rightarrow> 'a::len word" where
  "fp_of_nat m b n =
     (if n = 0 then 0
      else of_nat ((ilog2 n + b) * 2 ^ m + (n * 2 ^ (m - ilog2 n)) mod 2 ^ m))"

text \<open>The integer a bit pattern stands for, if it is a non-negative integer.\<close>

definition nat_of_fp :: "nat \<Rightarrow> nat \<Rightarrow> 'a::len word \<Rightarrow> nat option" where
  "nat_of_fp m b x =
     (if x = 0 then Some 0
      else (let e = unat x div 2 ^ m;
                f = 2 ^ m + unat x mod 2 ^ m
            in if b \<le> e \<and> e \<le> b + m \<and> 2 ^ (b + m - e) dvd f
               then Some (f div 2 ^ (b + m - e)) else None))"

definition f64_nan :: f64 where
  "f64_nan = 0x7FF8000000000000"

definition f32_nan :: f32 where
  "f32_nan = 0x7FC00000"

definition small_op64 :: "(nat \<Rightarrow> nat \<Rightarrow> nat option) \<Rightarrow> f64 \<Rightarrow> f64 \<Rightarrow> f64" where
  "small_op64 f x y =
     (case (nat_of_fp 52 1023 x, nat_of_fp 52 1023 y) of
        (Some a, Some b) \<Rightarrow>
          (case f a b of
             Some c \<Rightarrow> if c < 2 ^ 53 then fp_of_nat 52 1023 c else f64_nan
           | None \<Rightarrow> f64_nan)
      | _ \<Rightarrow> f64_nan)"

definition small_op32 :: "(nat \<Rightarrow> nat \<Rightarrow> nat option) \<Rightarrow> f32 \<Rightarrow> f32 \<Rightarrow> f32" where
  "small_op32 f x y =
     (case (nat_of_fp 23 127 x, nat_of_fp 23 127 y) of
        (Some a, Some b) \<Rightarrow>
          (case f a b of
             Some c \<Rightarrow> if c < 2 ^ 24 then fp_of_nat 23 127 c else f32_nan
           | None \<Rightarrow> f32_nan)
      | _ \<Rightarrow> f32_nan)"

text \<open>
  The table entries are the binary32 values nearest to \<open>10^(-i/10)\<close>, for
  \<open>i = 0, ..., 14\<close>; entry 0 is \<open>1.0\<close>.
\<close>

definition small_db :: "f32 list" where
  "small_db =
     [0x3F800000, 0x3F4B5918, 0x3F21866C, 0x3F004DCE, 0x3ECBD4B4,
      0x3EA1E89B, 0x3E809BCC, 0x3E4C509B, 0x3E224B06, 0x3E00E9F9,
      0x3DCCCCCD, 0x3DA2ADAD, 0x3D813856, 0x3D4D494A, 0x3D231090]"

definition fpu_small :: fpu where
  "fpu_small =
     \<lparr>f64_div_int = (\<lambda>a b.
          if 0 \<le> a \<and> a < 2 ^ 53 \<and> 0 < b \<and> b < 2 ^ 53 \<and> b dvd a
          then fp_of_nat 52 1023 (nat (a div b)) else f64_nan),
      f64_inc = (\<lambda>x. small_op64 (\<lambda>a b. Some (a + b)) x (fp_of_nat 52 1023 1)),
      f64_sub = small_op64 (\<lambda>a b. if b \<le> a then Some (a - b) else None),
      f64_ge = (\<lambda>x y.
          case (nat_of_fp 52 1023 x, nat_of_fp 52 1023 y) of
            (Some a, Some b) \<Rightarrow> b \<le> a
          | _ \<Rightarrow> False),
      f32_add = small_op32 (\<lambda>a b. Some (a + b)),
      f32_mul = small_op32 (\<lambda>a b. Some (a * b)),
      f32_db = (\<lambda>i. if i < 15 then small_db ! i else f32_nan)\<rparr>"

text \<open>The \<open>float32\<close> constant \<open>1.0\<close>.\<close>

definition f32_one :: f32 where
  "f32_one = 0x3F800000"

section \<open>Invariants\<close>

text \<open>Every volume register holds a 4-bit value.\<close>

definition vol_ok :: "SN76489 \<Rightarrow> bool" where
  "vol_ok s = (\<forall>ch < 4. get4 (volume s) ch \<le> 15)"

text \<open>The four channel buffers are as long as the mix buffer, as \<open>New\<close> allocates them.\<close>

definition bufs_ok :: "SN76489 \<Rightarrow> bool" where
  "bufs_ok s = (\<forall>ch < 4. length (get4 (channelBuffers s) ch) = length (mixBuffer s))"

text \<open>
  The chip proper: the engine with the resampler, the gain and the buffers blanked out.
  \<open>Run\<close> differs from a sequence of \<open>Clock\<close> calls only outside of it.
\<close>

definition chip :: "SN76489 \<Rightarrow> SN76489" where
  "chip s = s\<lparr>clocksPerSample := 0, clockCounter := 0, gain := 0,
              channelBuffers := ([], [], [], []), mixBuffer := [], bufferPos := 0\<rparr>"

text \<open>The variant-derived fields are the ones \<open>New\<close> computes from \<open>cfg\<close>.\<close>

definition variant_of :: "Config \<Rightarrow> SN76489 \<Rightarrow> bool" where
  "variant_of cfg s \<longleftrightarrow>
     feedbackShift s = unat (word_of_int (LFSRBits cfg - 1) :: u64)
     \<and> lfsrInitial s = push_bit (feedbackShift s) 1
     \<and> whiteNoiseTaps s = WhiteNoiseTaps cfg
     \<and> toneZeroValue s = (if ToneZero cfg = ToneZeroAs1024 then 1024 else 1)"



text \<open>What \<open>lfsr_shift\<close> does to the shift register in periodic mode.\<close>

definition periodic_step :: "nat \<Rightarrow> u16 \<Rightarrow> u16" where
  "periodic_step fs x = drop_bit 1 x OR push_bit fs (x AND 1)"

text \<open>
  Tone registers hold 10 bits, and a tone counter is at most the largest value it can be
  reloaded with.
\<close>

definition tone_ok :: "SN76489 \<Rightarrow> bool" where
  "tone_ok s \<longleftrightarrow>
     (\<forall>i < 3. get3 (toneReg s) i \<le> 0x3FF
              \<and> get3 (toneCounter s) i \<le> max 0x3FF (toneZeroValue s))"

text \<open>The bound of a tone counter by its own register.\<close>

definition tone_bound :: "SN76489 \<Rightarrow> nat \<Rightarrow> bool" where
  "tone_bound s i \<longleftrightarrow> get3 (toneCounter s) i \<le> max (get3 (toneReg s) i) (toneZeroValue s)"

text \<open>
  A Sega engine after \<open>Write(0x8F)\<close>, sixteen clocks and \<open>Write(0x80)\<close>: the counter of
  tone channel 0 was reloaded with 15 before the register was lowered to 0.
\<close>

definition c8_state :: SN76489 where
  "c8_state = Write 0x80 ((Clock ^^ 16) (Write 0x8F (New fpu_small 1 1 1 Sega)))"

text \<open>
  The scenario of the single tone: a Sega engine with gain 1.0 after the writes
  \<open>0x84, 0x00, 0x90\<close> (tone register 0 set to 4, volume 0 set to the maximum).
\<close>

definition c2_state :: "int \<Rightarrow> int \<Rightarrow> nat \<Rightarrow> SN76489" where
  "c2_state clockFreq sampleRate bufferSize =
     Write 0x90 (Write 0x00 (Write 0x84
       (SetGain f32_one (New fpu_small clockFreq sampleRate bufferSize Sega))))"

text \<open>What an observer \<open>f\<close> sees after each of \<open>n\<close> consecutive internal ticks.\<close>

fun tick_trace :: "(SN76489 \<Rightarrow> 'a) \<Rightarrow> nat \<Rightarrow> SN76489 \<Rightarrow> 'a list" where
  "tick_trace f 0 s = []"
| "tick_trace f (Suc n) s = f (internal_tick s) # tick_trace f n (internal_tick s)"

text \<open>
  The snapshot scenario: a Sega engine with one sample per input clock, the noise channel
  at full volume in periodic mode at the rate of tone channel 2, after sixteen clocks
  (one internal tick); the engine a fresh one becomes on loading its snapshot; and a
  script of 927 clocks followed by \<open>Run(1)\<close>.
\<close>

definition c1_new :: SN76489 where
  "c1_new = New fpu_small 48000 48000 1 Sega"

definition c1_S :: SN76489 where
  "c1_S = (Clock ^^ 16) (Write 0xE3 (Write 0xF0 c1_new))"

definition c1_S' :: SN76489 where
  "c1_S' = fst (Deserialize (fst (Serialize c1_S (replicate 40 0))) c1_new)"

definition c1_script :: "call list" where
  "c1_script = replicate 927 CallClock @ [CallRun 1]"


section \<open>Properties\<close>

subsection \<open>Arrays, words and evaluation\<close>

lemma get3_set3_same: "i < 3 \<Longrightarrow> get3 (set3 t i v) i = v"
  by (cases t) auto

lemma get3_set3_other: "i \<noteq> j \<Longrightarrow> j < 3 \<Longrightarrow> get3 (set3 t i v) j = get3 t j"
  by (cases t) auto

lemma get4_set4_same: "i < 4 \<Longrightarrow> get4 (set4 t i v) i = v"
  by (cases t) auto

lemma get4_set4_other: "i \<noteq> j \<Longrightarrow> j < 4 \<Longrightarrow> get4 (set4 t i v) j = get4 t j"
  by (cases t) auto

lemma funpow_num: "(f ^^ numeral k) x = f ((f ^^ pred_numeral k) x)"
  by (simp add: numeral_eq_Suc)

lemma h3F0: "(0x3F0 :: u16) = push_bit 4 (mask 6)"
  by (simp add: mask_eq_exp_minus_1)

lemma hF: "(0xF :: u16) = mask 4" "(0xF :: u8) = mask 4"
  by (simp_all add: mask_eq_exp_minus_1)

lemma h3F: "(0x3F :: u8) = mask 6"
  by (simp add: mask_eq_exp_minus_1)

lemma le_3FF_I: "(w :: u16) AND mask 10 = w \<Longrightarrow> w \<le> 0x3FF"
  using mask_eq_iff [of w 10] by (simp add: word_le_def)

lemma latch_low_nibble:
  "(((old :: u16) AND 0x3F0) OR ucast ((v :: u8) AND 0x0F)) AND 0x0F = ucast (v AND 0x0F)"
  unfolding h3F0 hF
  by (rule bit_word_eqI) (auto simp: bit_simps)

lemma latch_high_bits:
  "(((old :: u16) AND 0x3F0) OR ucast ((v :: u8) AND 0x0F)) AND 0x3F0 = old AND 0x3F0"
  unfolding h3F0 hF
  by (rule bit_word_eqI) (auto simp: bit_simps)

lemma latch_le_3FF: "(((old :: u16) AND 0x3F0) OR ucast ((v :: u8) AND 0x0F)) \<le> 0x3FF"
  unfolding h3F0 hF
  by (rule le_3FF_I, rule bit_word_eqI) (auto simp: bit_simps)

lemma data_le_3FF: "(((old :: u16) AND 0x0F) OR push_bit 4 (ucast ((v :: u8) AND 0x3F))) \<le> 0x3FF"
  unfolding h3F hF
  by (rule le_3FF_I, rule bit_word_eqI) (auto simp: bit_simps)

lemma and_1_cases: "(x :: u8) AND 1 = 0 \<or> x AND 1 = 1"
  by (auto simp add: and_one_eq)

lemma ilog2_simps:
  "ilog2 0 = 0" "ilog2 1 = 0" "ilog2 (Suc 0) = 0"
  "ilog2 (numeral (Num.Bit0 k)) = Suc (ilog2 (numeral k))"
  "ilog2 (numeral (Num.Bit1 k)) = Suc (ilog2 (numeral k))"
proof -
  show "ilog2 0 = 0" "ilog2 1 = 0" "ilog2 (Suc 0) = 0"
    by (simp_all add: ilog2.simps [of 0] ilog2.simps [of 1] ilog2.simps [of "Suc 0"])
  show "ilog2 (numeral (Num.Bit0 k)) = Suc (ilog2 (numeral k))"
    by (subst ilog2.simps) (simp add: numeral_Bit0_div_2)
  show "ilog2 (numeral (Num.Bit1 k)) = Suc (ilog2 (numeral k))"
    by (subst ilog2.simps) simp
qed

lemma fpu_small_sel:
  "f64_div_int fpu_small a b =
     (if 0 \<le> a \<and> a < 2 ^ 53 \<and> 0 < b \<and> b < 2 ^ 53 \<and> b dvd a
      then fp_of_nat 52 1023 (nat (a div b)) else f64_nan)"
  "f64_inc fpu_small x = small_op64 (\<lambda>a b. Some (a + b)) x (fp_of_nat 52 1023 1)"
  "f64_sub fpu_small x y = small_op64 (\<lambda>a b. if b \<le> a then Some (a - b) else None) x y"
  "f64_ge fpu_small x y =
     (case (nat_of_fp 52 1023 x, nat_of_fp 52 1023 y) of
        (Some a, Some b) \<Rightarrow> b \<le> a
      | _ \<Rightarrow> False)"
  "f32_add fpu_small u v = small_op32 (\<lambda>a b. Some (a + b)) u v"
  "f32_mul fpu_small u v = small_op32 (\<lambda>a b. Some (a * b)) u v"
  "f32_db fpu_small i = (if i < 15 then small_db ! i else f32_nan)"
  by (simp_all add: fpu_small_def)

lemmas fpu_defs = fpu_small_sel small_op64_def small_op32_def nat_of_fp_def fp_of_nat_def
  f64_nan_def f32_nan_def small_db_def Let_def ilog2_simps

lemmas tick_defs = internal_tick_def clock_noise_def clock_tone_def noise_reload_def
  lfsr_shift_def lfsr_feedback_def Let_def

subsection \<open>The write port\<close>

text \<open>
  C6. For every engine state and every latch/data byte \<open>1CCTDDDD\<close>, \<open>Write\<close> sets the
  latch to \<open>(CC, T)\<close> and assigns exactly one kind of register: \<open>volume[CC]\<close> when
  \<open>T = 1\<close>; \<open>toneReg[CC]\<close> when \<open>T = 0\<close> and \<open>CC < 3\<close>, whose low four bits become
  \<open>DDDD\<close> while bits 4 to 9 are kept; \<open>noiseReg\<close> when \<open>T = 0\<close> and \<open>CC = 3\<close>. The other
  two kinds of registers are unchanged.
\<close>

theorem Write_latch:
  assumes "v AND 0x80 \<noteq> 0"
  shows "latchedChannel (Write v s) = drop_bit 5 v AND 0x03
    \<and> latchedType (Write v s) = drop_bit 4 v AND 0x01
    \<and> drop_bit 5 v AND 0x03 \<le> 3
    \<and> (drop_bit 4 v AND 0x01 = 0 \<or> drop_bit 4 v AND 0x01 = 1)
    \<and> (drop_bit 4 v AND 0x01 = 1 \<longrightarrow>
          volume (Write v s) = set4 (volume s) (unat (drop_bit 5 v AND 0x03)) (v AND 0x0F)
          \<and> toneReg (Write v s) = toneReg s \<and> noiseReg (Write v s) = noiseReg s)
    \<and> (drop_bit 4 v AND 0x01 = 0 \<and> drop_bit 5 v AND 0x03 < 3 \<longrightarrow>
          toneReg (Write v s) =
            set3 (toneReg s) (unat (drop_bit 5 v AND 0x03))
              ((get3 (toneReg s) (unat (drop_bit 5 v AND 0x03)) AND 0x3F0) OR ucast (v AND 0x0F))
          \<and> get3 (toneReg (Write v s)) (unat (drop_bit 5 v AND 0x03)) AND 0x0F = ucast (v AND 0x0F)
          \<and> get3 (toneReg (Write v s)) (unat (drop_bit 5 v AND 0x03)) AND 0x3F0
              = get3 (toneReg s) (unat (drop_bit 5 v AND 0x03)) AND 0x3F0
          \<and> volume (Write v s) = volume s \<and> noiseReg (Write v s) = noiseReg s)
    \<and> (drop_bit 4 v AND 0x01 = 0 \<and> drop_bit 5 v AND 0x03 = 3 \<longrightarrow>
          noiseReg (Write v s) = (v AND 0x0F) AND 0x07
          \<and> toneReg (Write v s) = toneReg s \<and> volume (Write v s) = volume s)"
proof -
  have cc3: "drop_bit 5 v AND 0x03 \<le> 3"
    by (rule word_and_le1)
  have t01: "drop_bit 4 v AND 0x01 = 0 \<or> drop_bit 4 v AND 0x01 = 1"
    by (rule and_1_cases)
  have lt: "drop_bit 5 v AND 0x03 < 3 \<Longrightarrow> unat (drop_bit 5 v AND 0x03) < 3"
    by (simp add: word_less_nat_alt)
  show ?thesis
    using assms cc3 t01
    by (auto simp: Write_def Let_def get3_set3_same latch_low_nibble latch_high_bits lt)
qed

theorem Write_latch_witness:
  "(0xA7 :: u8) AND 0x80 \<noteq> 0
   \<and> latchedChannel (Write 0xA7 (New fpu_small 1 1 1 Sega)) = 1
   \<and> latchedType (Write 0xA7 (New fpu_small 1 1 1 Sega)) = 0
   \<and> toneReg (Write 0xA7 (New fpu_small 1 1 1 Sega)) = (0, 7, 0)
   \<and> volume (Write 0xA7 (New fpu_small 1 1 1 Sega)) = (15, 15, 15, 15)
   \<and> noiseReg (Write 0xA7 (New fpu_small 1 1 1 Sega)) = 0"
proof -
  have h: "(0xA7 :: u8) AND 0x80 \<noteq> 0"
    by simp
  show ?thesis
    using h Write_latch [OF h, of "New fpu_small 1 1 1 Sega"]
    by (simp add: New_def Sega_def)
qed

subsection \<open>Loading a snapshot\<close>

text \<open>
  C7. \<open>Deserialize\<close> returns the "buffer too small" error exactly when the input is
  shorter than 40 bytes, and the "unsupported version" error exactly when the input has
  at least 40 bytes and its first byte is not 1. On an error the engine is unchanged; on
  success \<open>bufferPos\<close> is 0.
\<close>

theorem Deserialize_errors:
  "(snd (Deserialize buf s) = Some DeserializeBufferTooSmall \<longleftrightarrow> length buf < 40)
   \<and> (snd (Deserialize buf s) = Some UnsupportedVersion \<longleftrightarrow> 40 \<le> length buf \<and> buf ! 0 \<noteq> 1)
   \<and> (snd (Deserialize buf s) \<noteq> None \<longrightarrow> fst (Deserialize buf s) = s)
   \<and> (snd (Deserialize buf s) = None \<longrightarrow> bufferPos (fst (Deserialize buf s)) = 0)"
  by (simp add: Deserialize_def Let_def sn76489SerializeSize_def serializeVersion_def)

theorem Deserialize_errors_witness:
  "snd (Deserialize (replicate 40 1) (New fpu_small 1 1 1 Sega)) = None
   \<and> bufferPos (fst (Deserialize (replicate 40 1) (New fpu_small 1 1 1 Sega))) = 0
   \<and> snd (Deserialize (replicate 40 2) (New fpu_small 1 1 1 Sega)) = Some UnsupportedVersion
   \<and> fst (Deserialize (replicate 40 2) (New fpu_small 1 1 1 Sega)) = New fpu_small 1 1 1 Sega
   \<and> snd (Deserialize (replicate 39 1) (New fpu_small 1 1 1 Sega)) = Some DeserializeBufferTooSmall
   \<and> fst (Deserialize (replicate 39 1) (New fpu_small 1 1 1 Sega)) = New fpu_small 1 1 1 Sega"
proof -
  have a: "snd (Deserialize (replicate 40 1) (New fpu_small 1 1 1 Sega)) = None"
    by (simp add: Deserialize_def Let_def sn76489SerializeSize_def serializeVersion_def)
  have b: "snd (Deserialize (replicate 40 2) (New fpu_small 1 1 1 Sega)) \<noteq> None"
    by (simp add: Deserialize_def Let_def sn76489SerializeSize_def serializeVersion_def)
  have c: "snd (Deserialize (replicate 39 1) (New fpu_small 1 1 1 Sega)) \<noteq> None"
    by (simp add: Deserialize_def Let_def sn76489SerializeSize_def serializeVersion_def)
  show ?thesis
    using a b c
      Deserialize_errors [of "replicate 40 1" "New fpu_small 1 1 1 Sega"]
      Deserialize_errors [of "replicate 40 2" "New fpu_small 1 1 1 Sega"]
      Deserialize_errors [of "replicate 39 1" "New fpu_small 1 1 1 Sega"]
    by simp
qed

text \<open>
  C10. A successful \<open>Deserialize\<close> leaves \<open>noiseToggle\<close> as it was before the call, while
  \<open>noiseReg\<close>, \<open>noiseCounter\<close>, \<open>noiseShift\<close> and the captured noise output bit are read
  from bytes 16 to 21 of the blob; and what \<open>Serialize\<close> writes does not depend on
  \<open>noiseToggle\<close>.
\<close>

theorem Deserialize_noiseToggle:
  "(snd (Deserialize buf s) = None \<longrightarrow>
      noiseToggle (fst (Deserialize buf s)) = noiseToggle s
      \<and> noiseReg (fst (Deserialize buf s)) = buf ! 16
      \<and> noiseCounter (fst (Deserialize buf s)) = Uint16 buf 17
      \<and> noiseShift (fst (Deserialize buf s)) = Uint16 buf 19
      \<and> noiseOut (fst (Deserialize buf s)) = (buf ! 21 \<noteq> 0))
   \<and> Serialize (s\<lparr>noiseToggle := b\<rparr>) out = Serialize s out"
  by (simp add: Deserialize_def Serialize_def Let_def)

theorem Deserialize_noiseToggle_witness:
  "snd (Deserialize (replicate 40 1) ((New fpu_small 1 1 1 Sega)\<lparr>noiseToggle := True\<rparr>)) = None
   \<and> noiseToggle (fst (Deserialize (replicate 40 1) ((New fpu_small 1 1 1 Sega)\<lparr>noiseToggle := True\<rparr>)))
   \<and> noiseShift (fst (Deserialize (replicate 40 1) ((New fpu_small 1 1 1 Sega)\<lparr>noiseToggle := True\<rparr>)))
       = 0x0101"
proof -
  have a: "snd (Deserialize (replicate 40 1) ((New fpu_small 1 1 1 Sega)\<lparr>noiseToggle := True\<rparr>)) = None"
    by (simp add: Deserialize_def Let_def sn76489SerializeSize_def serializeVersion_def)
  show ?thesis
    using a
      Deserialize_noiseToggle [of "replicate 40 1" "(New fpu_small 1 1 1 Sega)\<lparr>noiseToggle := True\<rparr>"]
    by (simp add: Uint16_def)
qed

lemma get4_set4: "i < 4 \<Longrightarrow> j < 4 \<Longrightarrow> get4 (set4 t i v) j = (if i = j then v else get4 t j)"
  by (cases t) auto

lemma get3_set3: "i < 3 \<Longrightarrow> j < 3 \<Longrightarrow> get3 (set3 t i v) j = (if i = j then v else get3 t j)"
  by (cases t) auto

subsection \<open>What the clock leaves alone\<close>

lemma clock_tone_frame:
  "volume (clock_tone i s) = volume s"
  "channelBuffers (clock_tone i s) = channelBuffers s"
  "mixBuffer (clock_tone i s) = mixBuffer s"
  "bufferPos (clock_tone i s) = bufferPos s"
  "toneReg (clock_tone i s) = toneReg s"
  "toneZeroValue (clock_tone i s) = toneZeroValue s"
  "noiseShift (clock_tone i s) = noiseShift s"
  "noiseReg (clock_tone i s) = noiseReg s"
  "noiseCounter (clock_tone i s) = noiseCounter s"
  "noiseToggle (clock_tone i s) = noiseToggle s"
  "noiseOut (clock_tone i s) = noiseOut s"
  "feedbackShift (clock_tone i s) = feedbackShift s"
  "lfsrInitial (clock_tone i s) = lfsrInitial s"
  "whiteNoiseTaps (clock_tone i s) = whiteNoiseTaps s"
  "clocksPerSample (clock_tone i s) = clocksPerSample s"
  "clockCounter (clock_tone i s) = clockCounter s"
  "clockDivider (clock_tone i s) = clockDivider s"
  "gain (clock_tone i s) = gain s"
  "latchedChannel (clock_tone i s) = latchedChannel s"
  "latchedType (clock_tone i s) = latchedType s"
  by (simp_all add: clock_tone_def)

lemma clock_noise_frame:
  "volume (clock_noise s) = volume s"
  "channelBuffers (clock_noise s) = channelBuffers s"
  "mixBuffer (clock_noise s) = mixBuffer s"
  "bufferPos (clock_noise s) = bufferPos s"
  "toneReg (clock_noise s) = toneReg s"
  "toneCounter (clock_noise s) = toneCounter s"
  "toneOutput (clock_noise s) = toneOutput s"
  "toneZeroValue (clock_noise s) = toneZeroValue s"
  "noiseReg (clock_noise s) = noiseReg s"
  "feedbackShift (clock_noise s) = feedbackShift s"
  "lfsrInitial (clock_noise s) = lfsrInitial s"
  "whiteNoiseTaps (clock_noise s) = whiteNoiseTaps s"
  "clocksPerSample (clock_noise s) = clocksPerSample s"
  "clockCounter (clock_noise s) = clockCounter s"
  "clockDivider (clock_noise s) = clockDivider s"
  "gain (clock_noise s) = gain s"
  "latchedChannel (clock_noise s) = latchedChannel s"
  "latchedType (clock_noise s) = latchedType s"
  by (simp_all add: clock_noise_def lfsr_shift_def Let_def)

lemma internal_tick_frame:
  "volume (internal_tick s) = volume s"
  "channelBuffers (internal_tick s) = channelBuffers s"
  "mixBuffer (internal_tick s) = mixBuffer s"
  "bufferPos (internal_tick s) = bufferPos s"
  "toneReg (internal_tick s) = toneReg s"
  "toneZeroValue (internal_tick s) = toneZeroValue s"
  "noiseReg (internal_tick s) = noiseReg s"
  "feedbackShift (internal_tick s) = feedbackShift s"
  "lfsrInitial (internal_tick s) = lfsrInitial s"
  "whiteNoiseTaps (internal_tick s) = whiteNoiseTaps s"
  "clocksPerSample (internal_tick s) = clocksPerSample s"
  "clockCounter (internal_tick s) = clockCounter s"
  "clockDivider (internal_tick s) = clockDivider s"
  "gain (internal_tick s) = gain s"
  "latchedChannel (internal_tick s) = latchedChannel s"
  "latchedType (internal_tick s) = latchedType s"
  by (simp_all add: internal_tick_def clock_noise_frame clock_tone_frame)

lemma Clock_eq:
  "Clock s = (if clockDivider s + 1 < 16 then s\<lparr>clockDivider := clockDivider s + 1\<rparr>
              else internal_tick (s\<lparr>clockDivider := 0\<rparr>))"
  by (simp add: Clock_def internal_tick_def Let_def)

lemma Clock_frame:
  "volume (Clock s) = volume s"
  "channelBuffers (Clock s) = channelBuffers s"
  "mixBuffer (Clock s) = mixBuffer s"
  "bufferPos (Clock s) = bufferPos s"
  "toneReg (Clock s) = toneReg s"
  "toneZeroValue (Clock s) = toneZeroValue s"
  "noiseReg (Clock s) = noiseReg s"
  "feedbackShift (Clock s) = feedbackShift s"
  "lfsrInitial (Clock s) = lfsrInitial s"
  "whiteNoiseTaps (Clock s) = whiteNoiseTaps s"
  "clocksPerSample (Clock s) = clocksPerSample s"
  "clockCounter (Clock s) = clockCounter s"
  "gain (Clock s) = gain s"
  "latchedChannel (Clock s) = latchedChannel s"
  "latchedType (Clock s) = latchedType s"
  by (simp_all add: Clock_eq internal_tick_frame)

subsection \<open>The frame driver\<close>

lemma run_loop_num:
  "run_loop fp (numeral k) sd = Option.bind (run_step fp sd) (run_loop fp (pred_numeral k))"
  by (simp add: numeral_eq_Suc)

lemma run_loop_1: "run_loop fp 1 sd = run_step fp sd"
  by (cases "run_step fp sd") (simp_all add: One_nat_def del: One_nat_def [symmetric])

lemma run_step_dropped:
  "run_step fp (s, d) = map_option (\<lambda>r. (fst r, snd r + d)) (run_step fp (s, 0))"
  by (simp add: run_step_def Let_def option.map_comp comp_def)

lemma run_loop_dropped:
  "run_loop fp n (s, d) = map_option (\<lambda>r. (fst r, snd r + d)) (run_loop fp n (s, 0))"
proof (induction n arbitrary: s d)
  case 0
  show ?case by simp
next
  case (Suc n)
  show ?case
  proof (cases "run_step fp (s, 0)")
    case None
    then show ?thesis using run_step_dropped [of fp s d] by simp
  next
    case (Some r)
    obtain s1 d1 where r: "r = (s1, d1)" by (cases r)
    have "run_step fp (s, d) = Some (s1, d1 + d)"
      using run_step_dropped [of fp s d] Some r by simp
    then show ?thesis
      using Some r Suc.IH [of s1 "d1 + d"] Suc.IH [of s1 d1]
      by (simp add: option.map_comp comp_def add.assoc)
  qed
qed

lemma run_loop_add:
  "run_loop fp (m + n) sd = Option.bind (run_loop fp m sd) (run_loop fp n)"
proof (induction m arbitrary: sd)
  case 0
  show ?case by simp
next
  case (Suc m)
  show ?case
    by (cases "run_step fp sd") (simp_all add: Suc.IH)
qed

text \<open>
  C3. For every engine state and all clock counts \<open>a, b \<ge> 0\<close>, \<open>ResetBuffer(); Run(a+b)\<close>
  gives the same result as \<open>ResetBuffer(); Run(a); Run(b)\<close> with nothing between the two
  runs: the same engine state, hence the same four channel buffers and the same buffer
  position, and a dropped count that is the sum of the two; if one sequence panics, so
  does the other.
\<close>

theorem Run_split:
  assumes "0 \<le> a" and "0 \<le> b"
  shows "Run fp (a + b) (ResetBuffer s) =
         Option.bind (Run fp a (ResetBuffer s))
           (\<lambda>r1. map_option (\<lambda>r2. (fst r2, snd r1 + snd r2)) (Run fp b (fst r1)))"
proof -
  have n: "nat (a + b) = nat a + nat b"
    using assms by (simp add: nat_add_distrib)
  show ?thesis
  proof (cases "run_loop fp (nat a) (ResetBuffer s, 0)")
    case None
    then show ?thesis by (simp add: Run_def n run_loop_add)
  next
    case (Some r1)
    obtain s1 d1 where r1: "r1 = (s1, d1)" by (cases r1)
    show ?thesis
      using Some r1 run_loop_dropped [of fp "nat b" s1 d1]
      by (simp add: Run_def n run_loop_add add.commute)
  qed
qed

theorem Run_split_witness:
  "(0 :: int) \<le> 2 \<and> (0 :: int) \<le> 3
   \<and> Run fpu_small (2 + 3) (ResetBuffer (New fpu_small 1 1 8 Sega)) =
       Option.bind (Run fpu_small 2 (ResetBuffer (New fpu_small 1 1 8 Sega)))
         (\<lambda>r1. map_option (\<lambda>r2. (fst r2, snd r1 + snd r2)) (Run fpu_small 3 (fst r1)))"
proof -
  have h: "(0 :: int) \<le> 2" "(0 :: int) \<le> 3"
    by simp_all
  show ?thesis
    using h Run_split [OF h, of fpu_small "New fpu_small 1 1 8 Sega"] by simp
qed

subsection \<open>Volume registers and the table lookups\<close>

lemma vol_lookup_Some: "v \<le> 15 \<Longrightarrow> \<exists>x. vol_lookup fp v = Some x"
  by (simp add: vol_lookup_def word_le_nat_alt)

lemma chan_value_Some: "v \<le> 15 \<Longrightarrow> \<exists>x. chan_value fp out v = Some x"
  using vol_lookup_Some [of v fp] by (simp add: chan_value_def)

lemma sample_add_Some: "v \<le> 15 \<Longrightarrow> \<exists>x. sample_add fp out v t = Some x"
  using vol_lookup_Some [of v fp] by (auto simp add: sample_add_def)

lemma Sample_Some:
  assumes "vol_ok s"
  shows "\<exists>x. Sample fp s = Some x"
proof -
  have v: "get4 (volume s) 0 \<le> 15" "get4 (volume s) 1 \<le> 15" "get4 (volume s) 2 \<le> 15"
    "get4 (volume s) 3 \<le> 15"
    using assms by (simp_all add: vol_ok_def)
  obtain a where a: "sample_add fp (get3 (toneOutput s) 0) (get4 (volume s) 0) 0 = Some a"
    using sample_add_Some [OF v(1)] by blast
  obtain b where b: "sample_add fp (get3 (toneOutput s) 1) (get4 (volume s) 1) a = Some b"
    using sample_add_Some [OF v(2)] by blast
  obtain c where c: "sample_add fp (get3 (toneOutput s) 2) (get4 (volume s) 2) b = Some c"
    using sample_add_Some [OF v(3)] by blast
  obtain d where d: "sample_add fp (noiseOut s) (get4 (volume s) 3) c = Some d"
    using sample_add_Some [OF v(4)] by blast
  show ?thesis
    using a b c d by (simp add: Sample_def)
qed

lemma emit_chan_Some:
  assumes "vol_ok s" and "bufs_ok s" and "bufferPos s < length (mixBuffer s)" and "ch < 4"
  shows "\<exists>t. emit_chan fp ch out s = Some t \<and> vol_ok t \<and> bufs_ok t
           \<and> bufferPos t = bufferPos s \<and> mixBuffer t = mixBuffer s
           \<and> toneOutput t = toneOutput s \<and> noiseOut t = noiseOut s"
proof -
  have "get4 (volume s) ch \<le> 15"
    using assms by (simp add: vol_ok_def)
  then obtain x where x: "chan_value fp out (get4 (volume s) ch) = Some x"
    using chan_value_Some by blast
  have len: "bufferPos s < length (get4 (channelBuffers s) ch)"
    using assms by (simp add: bufs_ok_def)
  have "bufs_ok (s\<lparr>channelBuffers := set4 (channelBuffers s) ch ((get4 (channelBuffers s) ch)[bufferPos s := x])\<rparr>)"
    using assms(2,4) by (simp add: bufs_ok_def get4_set4)
  then show ?thesis
    using x len assms(1) by (simp add: emit_chan_def store_def vol_ok_def)
qed


lemma emit_sample_Some:
  assumes "vol_ok s" and "bufs_ok s" and "bufferPos s < length (mixBuffer s)"
  shows "\<exists>t. emit_sample fp s = Some t \<and> vol_ok t \<and> bufs_ok t"
proof -
  obtain a where a: "emit_chan fp 0 (get3 (toneOutput s) 0) s = Some a" "vol_ok a" "bufs_ok a"
    "bufferPos a = bufferPos s" "mixBuffer a = mixBuffer s"
    using emit_chan_Some [OF assms, of 0] by auto
  have "bufferPos a < length (mixBuffer a)"
    using a assms(3) by simp
  from emit_chan_Some [OF a(2,3) this, of 1 fp "get3 (toneOutput a) 1"]
  obtain b where b: "emit_chan fp 1 (get3 (toneOutput a) 1) a = Some b" "vol_ok b" "bufs_ok b"
    "bufferPos b = bufferPos a" "mixBuffer b = mixBuffer a"
    by auto
  have "bufferPos b < length (mixBuffer b)"
    using a b assms(3) by simp
  from emit_chan_Some [OF b(2,3) this, of 2 fp "get3 (toneOutput b) 2"]
  obtain c where c: "emit_chan fp 2 (get3 (toneOutput b) 2) b = Some c" "vol_ok c" "bufs_ok c"
    "bufferPos c = bufferPos b" "mixBuffer c = mixBuffer b"
    by auto
  have "bufferPos c < length (mixBuffer c)"
    using a b c assms(3) by simp
  from emit_chan_Some [OF c(2,3) this, of 3 fp "noiseOut c"]
  obtain d where d: "emit_chan fp 3 (noiseOut c) c = Some d" "vol_ok d" "bufs_ok d"
    by auto
  have "vol_ok (d\<lparr>bufferPos := bufferPos d + 1\<rparr>)" "bufs_ok (d\<lparr>bufferPos := bufferPos d + 1\<rparr>)"
    using d by (simp_all add: vol_ok_def bufs_ok_def)
  then show ?thesis
    using a b c d by (simp add: emit_sample_def)
qed

lemma run_step_Some:
  assumes "vol_ok s" and "bufs_ok s"
  shows "\<exists>t e. run_step fp (s, d) = Some (t, e) \<and> vol_ok t \<and> bufs_ok t"
proof -
  have c: "vol_ok (Clock s)" "bufs_ok (Clock s)"
    using assms by (simp_all add: vol_ok_def bufs_ok_def Clock_frame)
  define s3 where "s3 = (Clock s)\<lparr>clockCounter :=
     f64_sub fp (f64_inc fp (clockCounter (Clock s))) (clocksPerSample (Clock s))\<rparr>"
  have s3: "vol_ok s3" "bufs_ok s3"
    using c by (simp_all add: s3_def vol_ok_def bufs_ok_def)
  have s2: "vol_ok ((Clock s)\<lparr>clockCounter := f64_inc fp (clockCounter (Clock s))\<rparr>)"
    "bufs_ok ((Clock s)\<lparr>clockCounter := f64_inc fp (clockCounter (Clock s))\<rparr>)"
    using c by (simp_all add: vol_ok_def bufs_ok_def)
  show ?thesis
  proof (cases "bufferPos s3 < length (mixBuffer s3)")
    case True
    obtain t where "emit_sample fp s3 = Some t" "vol_ok t" "bufs_ok t"
      using emit_sample_Some [OF s3 True] by blast
    then show ?thesis
      using s2 s3 True by (auto simp: run_step_def Let_def s3_def)
  next
    case False
    then show ?thesis
      using s2 s3 by (auto simp: run_step_def Let_def s3_def)
  qed
qed

lemma run_loop_Some:
  assumes "vol_ok s" and "bufs_ok s"
  shows "\<exists>t e. run_loop fp n (s, d) = Some (t, e) \<and> vol_ok t \<and> bufs_ok t"
  using assms
proof (induction n arbitrary: s d)
  case 0
  then show ?case by simp
next
  case (Suc n)
  obtain t e where t: "run_step fp (s, d) = Some (t, e)" "vol_ok t" "bufs_ok t"
    using run_step_Some [OF Suc.prems] by blast
  show ?case
    using t Suc.IH [OF t(2,3), of e] by simp
qed

lemma Write_vol_ok: "vol_ok s \<Longrightarrow> vol_ok (Write v s)"
proof -
  assume a: "vol_ok s"
  have d: "v AND 0x0F \<le> 15" by (rule word_and_le1)
  have "unat (drop_bit 5 v AND 0x03) \<le> 3"
    using word_and_le1 [of "drop_bit 5 v" 3] by (simp add: word_le_nat_alt)
  then have ch: "unat (drop_bit 5 v AND 0x03) < 4" by simp
  show ?thesis
    using a d ch by (auto simp: Write_def Let_def vol_ok_def get4_set4)
qed

lemma Write_bufs: "channelBuffers (Write v s) = channelBuffers s" "mixBuffer (Write v s) = mixBuffer s"
  "bufferPos (Write v s) = bufferPos s"
  by (simp_all add: Write_def Let_def)

lemma reachable_ok: "reachable fp cfg s \<Longrightarrow> vol_ok s \<and> bufs_ok s"
proof (induction rule: reachable.induct)
  case (r_New clockFreq sampleRate bufferSize)
  show ?case by (simp add: New_def Let_def vol_ok_def bufs_ok_def)
next
  case (r_Reset s)
  then show ?case by (simp add: Reset_def vol_ok_def bufs_ok_def)
next
  case (r_Write s v)
  then show ?case by (simp add: Write_vol_ok bufs_ok_def Write_bufs)
next
  case (r_Clock s)
  then show ?case by (simp add: vol_ok_def bufs_ok_def Clock_frame)
next
  case (r_ResetBuffer s)
  then show ?case by (simp add: ResetBuffer_def vol_ok_def bufs_ok_def)
next
  case (r_SetGain s g)
  then show ?case by (simp add: SetGain_def vol_ok_def bufs_ok_def)
next
  case (r_Run s clocks s' d)
  then show ?case
    using run_loop_Some [of s fp "nat clocks" 0] by (auto simp: Run_def)
next
  case (r_GenerateSamples s clocks s' d)
  then have "vol_ok (ResetBuffer s)" "bufs_ok (ResetBuffer s)"
    by (simp_all add: ResetBuffer_def vol_ok_def bufs_ok_def)
  then show ?case
    using r_GenerateSamples run_loop_Some [of "ResetBuffer s" fp "nat clocks" 0]
    by (auto simp: Run_def GenerateSamples_def)
qed

text \<open>
  C9. In every state reachable from \<open>New\<close> or \<open>Reset\<close> by \<open>Write\<close>, \<open>Clock\<close>,
  \<open>ResetBuffer\<close>, \<open>Run\<close>, \<open>GenerateSamples\<close> and \<open>SetGain\<close>, each of the four volume
  registers is at most 15, so the lookups in \<open>volumeTable\<close> are in bounds: \<open>Sample\<close>,
  \<open>Run\<close> and \<open>GenerateSamples\<close> return without a panic.
\<close>

theorem volume_in_range:
  assumes "reachable fp cfg s"
  shows "(\<forall>ch < 4. get4 (volume s) ch \<le> 15)
    \<and> (\<exists>x. Sample fp s = Some x)
    \<and> (\<forall>clocks. \<exists>r. Run fp clocks s = Some r)
    \<and> (\<forall>clocks. \<exists>r. GenerateSamples fp clocks s = Some r)"
proof -
  have ok: "vol_ok s" "bufs_ok s"
    using reachable_ok [OF assms] by simp_all
  have ok': "vol_ok (ResetBuffer s)" "bufs_ok (ResetBuffer s)"
    using ok by (simp_all add: ResetBuffer_def vol_ok_def bufs_ok_def)
  have "\<exists>r. Run fp clocks s = Some r" for clocks
    using run_loop_Some [OF ok, of fp "nat clocks" 0] by (auto simp: Run_def)
  moreover have "\<exists>r. GenerateSamples fp clocks s = Some r" for clocks
    using run_loop_Some [OF ok', of fp "nat clocks" 0] by (auto simp: Run_def GenerateSamples_def)
  ultimately show ?thesis
    using ok(1) Sample_Some [OF ok(1), of fp] by (simp add: vol_ok_def)
qed

theorem volume_in_range_witness:
  "reachable fpu_small Sega (Write 0x95 (New fpu_small 1 1 1 Sega))
   \<and> get4 (volume (Write 0x95 (New fpu_small 1 1 1 Sega))) 0 = 5
   \<and> get4 (volume (Write 0x95 (New fpu_small 1 1 1 Sega))) 3 \<le> 15
   \<and> (\<exists>x. Sample fpu_small (Write 0x95 (New fpu_small 1 1 1 Sega)) = Some x)
   \<and> (\<exists>r. Run fpu_small 100 (Write 0x95 (New fpu_small 1 1 1 Sega)) = Some r)"
proof -
  have r: "reachable fpu_small Sega (Write 0x95 (New fpu_small 1 1 1 Sega))"
    by (rule r_Write, rule r_New)
  have v: "get4 (volume (Write 0x95 (New fpu_small 1 1 1 Sega))) 0 = 5"
    by (simp add: Write_def New_def Sega_def Let_def)
  note t = volume_in_range [OF r]
  have a: "get4 (volume (Write 0x95 (New fpu_small 1 1 1 Sega))) 3 \<le> 15"
    using t by simp
  have b: "\<exists>x. Sample fpu_small (Write 0x95 (New fpu_small 1 1 1 Sega)) = Some x"
    using t by blast
  have c: "\<exists>r. Run fpu_small 100 (Write 0x95 (New fpu_small 1 1 1 Sega)) = Some r"
    using t by blast
  show ?thesis
    using r v a b c by blast
qed

subsection \<open>Invariants of the reachable states\<close>

lemma chip_simps:
  "chip (u\<lparr>clockCounter := x\<rparr>) = chip u"
  "chip (u\<lparr>channelBuffers := y\<rparr>) = chip u"
  "chip (u\<lparr>bufferPos := z\<rparr>) = chip u"
  "chip (u\<lparr>gain := g\<rparr>) = chip u"
  by (simp_all add: chip_def)

lemma emit_chan_chip:
  assumes "emit_chan fp ch out s = Some t"
  shows "chip t = chip s"
proof (cases "chan_value fp out (get4 (volume s) ch)")
  case None
  then show ?thesis using assms by (simp add: emit_chan_def)
next
  case (Some x)
  then show ?thesis
    using assms by (cases "store (get4 (channelBuffers s) ch) (bufferPos s) x")
      (auto simp: emit_chan_def chip_simps)
qed

lemma emit_sample_chip:
  assumes "emit_sample fp s = Some t"
  shows "chip t = chip s"
proof (cases "emit_chan fp 0 (get3 (toneOutput s) 0) s")
  case None
  then show ?thesis using assms by (simp add: emit_sample_def)
next
  case a: (Some a)
  show ?thesis
  proof (cases "emit_chan fp 1 (get3 (toneOutput a) 1) a")
    case None
    then show ?thesis using assms a by (simp add: emit_sample_def)
  next
    case b: (Some b)
    show ?thesis
    proof (cases "emit_chan fp 2 (get3 (toneOutput b) 2) b")
      case None
      then show ?thesis using assms a b by (simp add: emit_sample_def)
    next
      case c: (Some c)
      show ?thesis
      proof (cases "emit_chan fp 3 (noiseOut c) c")
        case None
        then show ?thesis using assms a b c by (simp add: emit_sample_def)
      next
        case d: (Some d)
        have "t = d\<lparr>bufferPos := bufferPos d + 1\<rparr>"
          using assms a b c d by (simp add: emit_sample_def)
        then have "chip t = chip d"
          by (simp add: chip_simps)
        then show ?thesis
          using emit_chan_chip [OF a] emit_chan_chip [OF b] emit_chan_chip [OF c]
            emit_chan_chip [OF d]
          by simp
      qed
    qed
  qed
qed

lemma run_step_chip:
  assumes "run_step fp (s, d) = Some (t, e)"
  shows "chip t = chip (Clock s)"
proof -
  define s2 where "s2 = (Clock s)\<lparr>clockCounter := f64_inc fp (clockCounter (Clock s))\<rparr>"
  define s3 where "s3 = s2\<lparr>clockCounter := f64_sub fp (clockCounter s2) (clocksPerSample s2)\<rparr>"
  have c: "chip s2 = chip (Clock s)" "chip s3 = chip (Clock s)"
    by (simp_all add: s2_def s3_def chip_simps)
  have rs: "run_step fp (s, d) =
      (if f64_ge fp (clockCounter s2) (clocksPerSample s2) then
         (if bufferPos s3 < length (mixBuffer s3) then
            map_option (\<lambda>s4. (s4, d)) (emit_sample fp s3)
          else Some (s3, d + 1))
       else Some (s2, d))"
    by (simp add: run_step_def Let_def s2_def s3_def)
  show ?thesis
  proof (cases "f64_ge fp (clockCounter s2) (clocksPerSample s2)")
    case False
    then show ?thesis using assms rs c by simp
  next
    case True
    show ?thesis
    proof (cases "bufferPos s3 < length (mixBuffer s3)")
      case False
      then show ?thesis using assms rs c True by simp
    next
      case pos: True
      then obtain s4 where "emit_sample fp s3 = Some s4" "t = s4"
        using assms rs True by (cases "emit_sample fp s3") simp_all
      then show ?thesis
        using emit_sample_chip c by simp
    qed
  qed
qed

lemma run_loop_invariant:
  assumes clock: "\<And>s. P s \<Longrightarrow> P (Clock s)"
    and resp: "\<And>s t. chip s = chip t \<Longrightarrow> P s \<Longrightarrow> P t"
    and "P s" and "run_loop fp n (s, d) = Some (t, e)"
  shows "P t"
  using assms(3,4)
proof (induction n arbitrary: s d)
  case 0
  then show ?case by simp
next
  case (Suc n)
  from Suc.prems(2) obtain u f where u: "run_step fp (s, d) = Some (u, f)"
    and r: "run_loop fp n (u, f) = Some (t, e)"
    by (cases "run_step fp (s, d)") auto
  have "P u"
    using resp [OF run_step_chip [OF u, symmetric] clock [OF Suc.prems(1)]] .
  then show ?case
    using r by (rule Suc.IH)
qed

lemma reachable_invariant:
  assumes new: "\<And>clockFreq sampleRate bufferSize. P (New fp clockFreq sampleRate bufferSize cfg)"
    and reset: "\<And>s. P s \<Longrightarrow> P (Reset s)"
    and wr: "\<And>s v. P s \<Longrightarrow> P (Write v s)"
    and clock: "\<And>s. P s \<Longrightarrow> P (Clock s)"
    and resp: "\<And>s t. chip s = chip t \<Longrightarrow> P s \<Longrightarrow> P t"
    and "reachable fp cfg s"
  shows "P s"
  using assms(6)
proof (induction rule: reachable.induct)
  case (r_New clockFreq sampleRate bufferSize)
  show ?case by (rule new)
next
  case (r_Reset s)
  show ?case by (rule reset) (rule r_Reset.IH)
next
  case (r_Write s v)
  show ?case by (rule wr) (rule r_Write.IH)
next
  case (r_Clock s)
  show ?case by (rule clock) (rule r_Clock.IH)
next
  case (r_ResetBuffer s)
  have "chip s = chip (ResetBuffer s)" by (simp add: chip_def ResetBuffer_def)
  then show ?case using r_ResetBuffer.IH by (rule resp)
next
  case (r_SetGain s g)
  have "chip s = chip (SetGain g s)" by (simp add: chip_def SetGain_def)
  then show ?case using r_SetGain.IH by (rule resp)
next
  case (r_Run s clocks s' d)
  have "run_loop fp (nat clocks) (s, 0) = Some (s', d)"
    using r_Run.hyps(2) by (simp add: Run_def)
  with clock resp r_Run.IH show ?case
    by (rule run_loop_invariant)
next
  case (r_GenerateSamples s clocks s' d)
  have "chip s = chip (ResetBuffer s)" by (simp add: chip_def ResetBuffer_def)
  then have p: "P (ResetBuffer s)" using r_GenerateSamples.IH by (rule resp)
  have "run_loop fp (nat clocks) (ResetBuffer s, 0) = Some (s', d)"
    using r_GenerateSamples.hyps(2) by (simp add: Run_def GenerateSamples_def)
  with clock resp p show ?case
    by (rule run_loop_invariant)
qed

lemma chip_fields:
  assumes "chip s = chip t"
  shows "toneReg s = toneReg t" "toneCounter s = toneCounter t" "toneOutput s = toneOutput t"
    "noiseReg s = noiseReg t" "noiseCounter s = noiseCounter t" "noiseShift s = noiseShift t"
    "noiseToggle s = noiseToggle t" "noiseOut s = noiseOut t" "volume s = volume t"
    "latchedChannel s = latchedChannel t" "latchedType s = latchedType t"
    "feedbackShift s = feedbackShift t" "lfsrInitial s = lfsrInitial t"
    "whiteNoiseTaps s = whiteNoiseTaps t" "toneZeroValue s = toneZeroValue t"
    "clockDivider s = clockDivider t"
proof -
  have f: "toneReg (chip u) = toneReg u" "toneCounter (chip u) = toneCounter u"
    "toneOutput (chip u) = toneOutput u" "noiseReg (chip u) = noiseReg u"
    "noiseCounter (chip u) = noiseCounter u" "noiseShift (chip u) = noiseShift u"
    "noiseToggle (chip u) = noiseToggle u" "noiseOut (chip u) = noiseOut u"
    "volume (chip u) = volume u" "latchedChannel (chip u) = latchedChannel u"
    "latchedType (chip u) = latchedType u" "feedbackShift (chip u) = feedbackShift u"
    "lfsrInitial (chip u) = lfsrInitial u" "whiteNoiseTaps (chip u) = whiteNoiseTaps u"
    "toneZeroValue (chip u) = toneZeroValue u" "clockDivider (chip u) = clockDivider u" for u
    by (simp_all add: chip_def)
  show "toneReg s = toneReg t" using f(1) [of s] f(1) [of t] assms by simp
  show "toneCounter s = toneCounter t" using f(2) [of s] f(2) [of t] assms by simp
  show "toneOutput s = toneOutput t" using f(3) [of s] f(3) [of t] assms by simp
  show "noiseReg s = noiseReg t" using f(4) [of s] f(4) [of t] assms by simp
  show "noiseCounter s = noiseCounter t" using f(5) [of s] f(5) [of t] assms by simp
  show "noiseShift s = noiseShift t" using f(6) [of s] f(6) [of t] assms by simp
  show "noiseToggle s = noiseToggle t" using f(7) [of s] f(7) [of t] assms by simp
  show "noiseOut s = noiseOut t" using f(8) [of s] f(8) [of t] assms by simp
  show "volume s = volume t" using f(9) [of s] f(9) [of t] assms by simp
  show "latchedChannel s = latchedChannel t" using f(10) [of s] f(10) [of t] assms by simp
  show "latchedType s = latchedType t" using f(11) [of s] f(11) [of t] assms by simp
  show "feedbackShift s = feedbackShift t" using f(12) [of s] f(12) [of t] assms by simp
  show "lfsrInitial s = lfsrInitial t" using f(13) [of s] f(13) [of t] assms by simp
  show "whiteNoiseTaps s = whiteNoiseTaps t" using f(14) [of s] f(14) [of t] assms by simp
  show "toneZeroValue s = toneZeroValue t" using f(15) [of s] f(15) [of t] assms by simp
  show "clockDivider s = clockDivider t" using f(16) [of s] f(16) [of t] assms by simp
qed

subsection \<open>Sixteen clocks make one tick\<close>

lemma upd_clockDivider_same: "clockDivider s = c \<Longrightarrow> s\<lparr>clockDivider := c\<rparr> = s"
  by auto

lemma Clock_count:
  "0 \<le> clockDivider s \<Longrightarrow> clockDivider s + int k < 16 \<Longrightarrow>
   (Clock ^^ k) s = s\<lparr>clockDivider := clockDivider s + int k\<rparr>"
proof (induction k)
  case 0
  then show ?case by simp
next
  case (Suc k)
  then show ?case by (simp add: Clock_eq add.assoc)
qed

lemma Clock_16: "clockDivider s = 0 \<Longrightarrow> (Clock ^^ 16) s = internal_tick s"
proof -
  assume a: "clockDivider s = 0"
  have "(Clock ^^ 16) s = Clock ((Clock ^^ 15) s)"
    by (simp add: funpow_num)
  also have "(Clock ^^ 15) s = s\<lparr>clockDivider := 15\<rparr>"
    using Clock_count [of s 15] a by simp
  also have "Clock (s\<lparr>clockDivider := 15\<rparr>) = internal_tick (s\<lparr>clockDivider := 0\<rparr>)"
    by (simp add: Clock_eq)
  also have "s\<lparr>clockDivider := 0\<rparr> = s"
    using a by (rule upd_clockDivider_same)
  finally show ?thesis .
qed

subsection \<open>The noise shift register\<close>





lemma variant_Sega: "variant_of Sega s \<longleftrightarrow>
  feedbackShift s = 15 \<and> lfsrInitial s = 0x8000 \<and> whiteNoiseTaps s = 9 \<and> toneZeroValue s = 1"
  by (auto simp: variant_of_def Sega_def)

lemma variant_TI: "variant_of TI s \<longleftrightarrow>
  feedbackShift s = 14 \<and> lfsrInitial s = 0x4000 \<and> whiteNoiseTaps s = 3 \<and> toneZeroValue s = 1024"
  by (auto simp: variant_of_def TI_def)








lemma variant_frame:
  assumes "feedbackShift t = feedbackShift s" "lfsrInitial t = lfsrInitial s"
    "whiteNoiseTaps t = whiteNoiseTaps s" "toneZeroValue t = toneZeroValue s"
  shows "variant_of cfg t = variant_of cfg s"
  using assms by (simp add: variant_of_def)









lemma Write_static:
  "feedbackShift (Write v s) = feedbackShift s" "lfsrInitial (Write v s) = lfsrInitial s"
  "whiteNoiseTaps (Write v s) = whiteNoiseTaps s" "toneZeroValue (Write v s) = toneZeroValue s"
  by (simp_all add: Write_def Let_def)










lemma reachable_variant: "reachable fp cfg s \<Longrightarrow> variant_of cfg s"
proof (rule reachable_invariant [where P = "variant_of cfg" and fp = fp and cfg = cfg])
  show "variant_of cfg (New fp clockFreq sampleRate bufferSize cfg)" for clockFreq sampleRate bufferSize
    by (simp add: variant_of_def New_def Let_def)
  show "variant_of cfg (Reset s)" if "variant_of cfg s" for s
    using that by (simp add: variant_of_def Reset_def)
  show "variant_of cfg (Write v s)" if "variant_of cfg s" for s v
    using that by (simp add: variant_frame [OF Write_static])
  show "variant_of cfg (Clock s)" if "variant_of cfg s" for s
    using that by (simp add: variant_of_def Clock_frame)
  show "variant_of cfg t" if "chip s = chip t" "variant_of cfg s" for s t
    using that(2) chip_fields [OF that(1)] by (simp add: variant_of_def)
qed

lemma periodic_funpow:
  assumes "noiseReg s AND 0x04 = 0"
  shows "noiseShift ((lfsr_shift ^^ k) s) = (periodic_step (feedbackShift s) ^^ k) (noiseShift s)
    \<and> noiseReg ((lfsr_shift ^^ k) s) = noiseReg s
    \<and> feedbackShift ((lfsr_shift ^^ k) s) = feedbackShift s"
proof (induction k)
  case 0
  show ?case by simp
next
  case (Suc k)
  then show ?case
    using assms by (simp add: lfsr_shift_def lfsr_feedback_def periodic_step_def)
qed

lemma less_16_cases: "k < 16 \<Longrightarrow> k \<in> {0, 1, 2, 3, 4, 5, 6, 7, 8, 9, 10, 11, 12, 13, 14, 15 :: nat}"
  by simp arith

lemma less_15_cases: "k < 15 \<Longrightarrow> k \<in> {0, 1, 2, 3, 4, 5, 6, 7, 8, 9, 10, 11, 12, 13, 14 :: nat}"
  by simp arith

lemma periodic_Sega:
  "(periodic_step 15 ^^ 16) 0x8000 = 0x8000"
  "0 < k \<Longrightarrow> k < 16 \<Longrightarrow> (periodic_step 15 ^^ k) 0x8000 \<noteq> 0x8000"
proof -
  show "(periodic_step 15 ^^ 16) 0x8000 = 0x8000"
    by (simp add: funpow_num periodic_step_def)
  show "0 < k \<Longrightarrow> k < 16 \<Longrightarrow> (periodic_step 15 ^^ k) 0x8000 \<noteq> 0x8000"
    by (drule less_16_cases) (auto simp: funpow_num periodic_step_def)
qed

lemma periodic_TI:
  "(periodic_step 14 ^^ 15) 0x4000 = 0x4000"
  "0 < k \<Longrightarrow> k < 15 \<Longrightarrow> (periodic_step 14 ^^ k) 0x4000 \<noteq> 0x4000"
proof -
  show "(periodic_step 14 ^^ 15) 0x4000 = 0x4000"
    by (simp add: funpow_num periodic_step_def)
  show "0 < k \<Longrightarrow> k < 15 \<Longrightarrow> (periodic_step 14 ^^ k) 0x4000 \<noteq> 0x4000"
    by (drule less_15_cases) (auto simp: funpow_num periodic_step_def)
qed

text \<open>
  C5. In periodic-noise mode (bit 2 of \<open>noiseReg\<close> clear), starting from
  \<open>noiseShift = lfsrInitial\<close>, the shift register is back at \<open>lfsrInitial\<close> after exactly
  16 shifts on the Sega variant and after exactly 15 shifts on the TI variant, and not
  after any smaller positive number of shifts. A shift is \<open>lfsr_shift\<close>, what \<open>Clock\<close>
  does on a rising edge of \<open>noiseToggle\<close>.
\<close>

theorem periodic_noise_period:
  "(reachable fp Sega s \<and> noiseReg s AND 0x04 = 0 \<and> noiseShift s = lfsrInitial s \<longrightarrow>
      lfsrInitial s = 0x8000
      \<and> noiseShift ((lfsr_shift ^^ 16) s) = lfsrInitial s
      \<and> (\<forall>k. 0 < k \<and> k < 16 \<longrightarrow> noiseShift ((lfsr_shift ^^ k) s) \<noteq> lfsrInitial s))
   \<and> (reachable fp TI s \<and> noiseReg s AND 0x04 = 0 \<and> noiseShift s = lfsrInitial s \<longrightarrow>
      lfsrInitial s = 0x4000
      \<and> noiseShift ((lfsr_shift ^^ 15) s) = lfsrInitial s
      \<and> (\<forall>k. 0 < k \<and> k < 15 \<longrightarrow> noiseShift ((lfsr_shift ^^ k) s) \<noteq> lfsrInitial s))"
proof (intro conjI impI)
  assume a: "reachable fp Sega s \<and> noiseReg s AND 0x04 = 0 \<and> noiseShift s = lfsrInitial s"
  then have v: "feedbackShift s = 15" "lfsrInitial s = 0x8000" "noiseShift s = 0x8000"
    using reachable_variant [of fp Sega s] by (simp_all add: variant_Sega)
  show "lfsrInitial s = 0x8000" by (rule v)
  show "noiseShift ((lfsr_shift ^^ 16) s) = lfsrInitial s"
    using a v periodic_funpow [of s 16] periodic_Sega(1) by simp
  show "\<forall>k. 0 < k \<and> k < 16 \<longrightarrow> noiseShift ((lfsr_shift ^^ k) s) \<noteq> lfsrInitial s"
    using a v periodic_funpow [of s] periodic_Sega(2) by simp
next
  assume a: "reachable fp TI s \<and> noiseReg s AND 0x04 = 0 \<and> noiseShift s = lfsrInitial s"
  then have v: "feedbackShift s = 14" "lfsrInitial s = 0x4000" "noiseShift s = 0x4000"
    using reachable_variant [of fp TI s] by (simp_all add: variant_TI)
  show "lfsrInitial s = 0x4000" by (rule v)
  show "noiseShift ((lfsr_shift ^^ 15) s) = lfsrInitial s"
    using a v periodic_funpow [of s 15] periodic_TI(1) by simp
  show "\<forall>k. 0 < k \<and> k < 15 \<longrightarrow> noiseShift ((lfsr_shift ^^ k) s) \<noteq> lfsrInitial s"
    using a v periodic_funpow [of s] periodic_TI(2) by simp
qed


theorem periodic_noise_period_witness:
  "reachable fpu_small Sega (Write 0xE0 (New fpu_small 1 1 1 Sega))
   \<and> noiseReg (Write 0xE0 (New fpu_small 1 1 1 Sega)) AND 0x04 = 0
   \<and> noiseShift (Write 0xE0 (New fpu_small 1 1 1 Sega)) = lfsrInitial (Write 0xE0 (New fpu_small 1 1 1 Sega))
   \<and> lfsrInitial (Write 0xE0 (New fpu_small 1 1 1 Sega)) = 0x8000
   \<and> noiseShift ((lfsr_shift ^^ 16) (Write 0xE0 (New fpu_small 1 1 1 Sega))) = 0x8000
   \<and> noiseShift ((lfsr_shift ^^ 8) (Write 0xE0 (New fpu_small 1 1 1 Sega))) \<noteq> 0x8000"
proof -
  define S where "S = Write 0xE0 (New fpu_small 1 1 1 Sega)"
  have a: "reachable fpu_small Sega S"
    unfolding S_def by (intro r_Write r_New)
  have c: "noiseReg S AND 0x04 = 0" "noiseShift S = lfsrInitial S"
    by (simp_all add: S_def Write_def New_def Sega_def Let_def)
  have p: "lfsrInitial S = 0x8000 \<and> noiseShift ((lfsr_shift ^^ 16) S) = lfsrInitial S
      \<and> (\<forall>k. 0 < k \<and> k < 16 \<longrightarrow> noiseShift ((lfsr_shift ^^ k) S) \<noteq> lfsrInitial S)"
    using periodic_noise_period [of fpu_small S] a c by blast
  then have q: "0 < k \<and> k < 16 \<longrightarrow> noiseShift ((lfsr_shift ^^ k) S) \<noteq> lfsrInitial S" for k
    by blast
  have "noiseShift ((lfsr_shift ^^ 8) S) \<noteq> lfsrInitial S"
    using q [of 8] by simp
  then show ?thesis
    using a c p unfolding S_def by simp
qed

subsection \<open>The tone counters\<close>

lemma word_dec_le: "0 < (c :: u16) \<Longrightarrow> c - 1 \<le> c"
proof -
  assume "0 < c"
  then have "c \<noteq> 0" by auto
  then have "unat (c - 1) = unat c - 1" by (rule unat_minus_one)
  then show ?thesis by (simp add: word_le_nat_alt)
qed

lemma clock_tone_ok_same:
  assumes "i < 3"
    and "get3 (toneReg s) i \<le> 0x3FF"
    and "get3 (toneCounter s) i \<le> max 0x3FF (toneZeroValue s)"
  shows "get3 (toneCounter (clock_tone i s)) i \<le> max 0x3FF (toneZeroValue s)"
proof (cases "0 < get3 (toneCounter s) i")
  case True
  then have "get3 (toneCounter s) i - 1 \<le> get3 (toneCounter s) i"
    by (rule word_dec_le)
  then show ?thesis
    using True assms by (simp add: clock_tone_def get3_set3_same)
next
  case False
  then show ?thesis
    using assms by (auto simp: clock_tone_def get3_set3_same max_def)
qed

lemma clock_tone_other:
  "i \<noteq> j \<Longrightarrow> j < 3 \<Longrightarrow> get3 (toneCounter (clock_tone i s)) j = get3 (toneCounter s) j"
  by (simp add: clock_tone_def get3_set3_other)

lemma clock_tone_tone_ok: "i < 3 \<Longrightarrow> tone_ok s \<Longrightarrow> tone_ok (clock_tone i s)"
  unfolding tone_ok_def
proof (intro allI impI conjI)
  fix j :: nat
  assume a: "i < 3" "\<forall>i<3. get3 (toneReg s) i \<le> 0x3FF \<and> get3 (toneCounter s) i \<le> max 0x3FF (toneZeroValue s)" "j < 3"
  show "get3 (toneReg (clock_tone i s)) j \<le> 0x3FF"
    using a by (simp add: clock_tone_frame)
  show "get3 (toneCounter (clock_tone i s)) j \<le> max 0x3FF (toneZeroValue (clock_tone i s))"
  proof (cases "i = j")
    case True
    then show ?thesis
      using a clock_tone_ok_same [of i s] by (simp add: clock_tone_frame)
  next
    case False
    then show ?thesis
      using a clock_tone_other [of i j s] by (simp add: clock_tone_frame)
  qed
qed

lemma tone_ok_upd:
  "tone_ok (s\<lparr>clockDivider := c\<rparr>) = tone_ok s"
  by (simp add: tone_ok_def)

lemma internal_tick_tone_ok: "tone_ok s \<Longrightarrow> tone_ok (internal_tick s)"
proof -
  assume "tone_ok s"
  then have "tone_ok (clock_tone 2 (clock_tone 1 (clock_tone 0 s)))"
    by (simp add: clock_tone_tone_ok)
  then show ?thesis
    by (simp add: internal_tick_def tone_ok_def clock_noise_frame)
qed

lemma Clock_tone_ok: "tone_ok s \<Longrightarrow> tone_ok (Clock s)"
  by (simp add: Clock_eq internal_tick_tone_ok tone_ok_upd)

lemma set3_le:
  "i < 3 \<Longrightarrow> x \<le> b \<Longrightarrow> \<forall>j<3. get3 t j \<le> b \<Longrightarrow> \<forall>j<3. get3 (set3 t i x) j \<le> (b :: u16)"
  by (simp add: get3_set3)

lemma Write_toneCounter: "toneCounter (Write v s) = toneCounter s"
  by (simp add: Write_def Let_def)

lemma Write_toneReg_le:
  assumes "\<forall>j<3. get3 (toneReg s) j \<le> 0x3FF"
  shows "\<forall>j<3. get3 (toneReg (Write v s)) j \<le> 0x3FF"
proof -
  have A: "\<forall>j<3. get3 (set3 (toneReg s) (unat c) x) j \<le> 0x3FF" if "c < 3" "x \<le> 0x3FF"
    for c :: u8 and x
    using that assms by (intro set3_le) (simp_all add: word_less_nat_alt)
  show ?thesis
    using assms by (simp add: Write_def Let_def A latch_le_3FF data_le_3FF)
qed

lemma Write_tone_ok: "tone_ok s \<Longrightarrow> tone_ok (Write v s)"
  using Write_toneReg_le [of s v]
  by (simp add: tone_ok_def Write_toneCounter Write_static)

lemma reachable_tone_ok: "reachable fp cfg s \<Longrightarrow> tone_ok s"
proof (rule reachable_invariant [where P = tone_ok and fp = fp and cfg = cfg])
  show "tone_ok (New fp clockFreq sampleRate bufferSize cfg)" for clockFreq sampleRate bufferSize
    by (simp add: tone_ok_def New_def Let_def)
  show "tone_ok (Reset s)" if "tone_ok s" for s
    using that by (simp add: tone_ok_def Reset_def)
  show "tone_ok (Write v s)" if "tone_ok s" for s v
    using that by (rule Write_tone_ok)
  show "tone_ok (Clock s)" if "tone_ok s" for s
    using that by (rule Clock_tone_ok)
  show "tone_ok t" if "chip s = chip t" "tone_ok s" for s t
    using that(2) chip_fields [OF that(1)] by (simp add: tone_ok_def)
qed

lemma clock_tone_bound: "j < 3 \<Longrightarrow> i < 3 \<Longrightarrow> tone_bound s i \<Longrightarrow> tone_bound (clock_tone j s) i"
proof (cases "i = j")
  case False
  assume "j < 3" "i < 3" "tone_bound s i"
  then show ?thesis
    using False clock_tone_other [of j i s] by (simp add: tone_bound_def clock_tone_frame)
next
  case True
  assume a: "j < 3" "i < 3" "tone_bound s i"
  show ?thesis
  proof (cases "0 < get3 (toneCounter s) i")
    case c: True
    then have "get3 (toneCounter s) i - 1 \<le> get3 (toneCounter s) i"
      by (rule word_dec_le)
    then show ?thesis
      using c a True by (simp add: tone_bound_def clock_tone_def get3_set3_same)
  next
    case False
    then show ?thesis
      using a True by (auto simp: tone_bound_def clock_tone_def get3_set3_same max_def)
  qed
qed

lemma Clock_tone_bound: "i < 3 \<Longrightarrow> tone_bound s i \<Longrightarrow> tone_bound (Clock s) i"
proof -
  assume a: "i < 3" "tone_bound s i"
  have u: "tone_bound (s\<lparr>clockDivider := c\<rparr>) i = tone_bound s i" for c s
    by (simp add: tone_bound_def)
  have "tone_bound (clock_tone 2 (clock_tone 1 (clock_tone 0 t))) i" if "tone_bound t i" for t
    using that a(1) by (simp add: clock_tone_bound)
  then have "tone_bound (internal_tick t) i" if "tone_bound t i" for t
    using that by (simp add: internal_tick_def tone_bound_def clock_noise_frame)
  then show ?thesis
    using a by (simp add: Clock_eq u)
qed

text \<open>
  C8, as stated: in every reachable state \<open>toneCounter[i] \<le> max(toneReg[i], toneZeroValue)\<close>.
  This fails: a \<open>Write\<close> lowers the register and leaves the counter, which was reloaded
  from the old value, as it is.
\<close>

theorem tone_counter_bound_counterexample:
  "reachable fpu_small Sega c8_state
   \<and> get3 (toneCounter c8_state) 0 = 15
   \<and> get3 (toneReg c8_state) 0 = 0
   \<and> toneZeroValue c8_state = 1
   \<and> \<not> get3 (toneCounter c8_state) 0 \<le> max (get3 (toneReg c8_state) 0) (toneZeroValue c8_state)"
proof -
  have r: "reachable fp cfg ((Clock ^^ k) s)" if "reachable fp cfg s" for fp cfg s k
    using that by (induction k) (simp_all add: r_Clock)
  have 1: "reachable fpu_small Sega c8_state"
    unfolding c8_state_def by (intro r_Write r r_New)
  have d: "clockDivider (Write 0x8F (New fpu_small 1 1 1 Sega)) = 0"
    by (simp add: Write_def New_def Let_def)
  have 2: "c8_state = Write 0x80 (internal_tick (Write 0x8F (New fpu_small 1 1 1 Sega)))"
    unfolding c8_state_def by (simp only: Clock_16 [OF d])
  have 3: "get3 (toneCounter c8_state) 0 = 15 \<and> get3 (toneReg c8_state) 0 = 0
      \<and> toneZeroValue c8_state = 1"
    unfolding 2 by (simp add: Write_def New_def Sega_def tick_defs)
  show ?thesis
    using 1 3 by (simp add: word_le_def)
qed

text \<open>
  C8, amended. In every reachable state each tone register is at most \<open>0x3FF\<close> and each
  tone counter is at most \<open>max(0x3FF, toneZeroValue)\<close>, the largest value a reload can
  give it. The bound by the channel's own register, \<open>max(toneReg[i], toneZeroValue)\<close>, is
  kept by \<open>Clock\<close> wherever it holds; only a \<open>Write\<close> that lowers the register can break
  it.
\<close>

theorem tone_counter_bound:
  "(reachable fp cfg s \<longrightarrow>
      (\<forall>i < 3. get3 (toneReg s) i \<le> 0x3FF
               \<and> get3 (toneCounter s) i \<le> max 0x3FF (toneZeroValue s)))
   \<and> (\<forall>i < 3. get3 (toneCounter s) i \<le> max (get3 (toneReg s) i) (toneZeroValue s) \<longrightarrow>
         get3 (toneCounter (Clock s)) i \<le> max (get3 (toneReg (Clock s)) i) (toneZeroValue (Clock s)))"
  using reachable_tone_ok [of fp cfg s] Clock_tone_bound [of _ s]
  by (simp add: tone_ok_def tone_bound_def)

theorem tone_counter_bound_witness:
  "reachable fpu_small Sega c8_state
   \<and> get3 (toneReg c8_state) 0 \<le> 0x3FF
   \<and> get3 (toneCounter c8_state) 0 \<le> max 0x3FF (toneZeroValue c8_state)
   \<and> get3 (toneCounter (New fpu_small 1 1 1 Sega)) 0
        \<le> max (get3 (toneReg (New fpu_small 1 1 1 Sega)) 0) (toneZeroValue (New fpu_small 1 1 1 Sega))
   \<and> get3 (toneCounter (Clock (New fpu_small 1 1 1 Sega))) 0
        \<le> max (get3 (toneReg (Clock (New fpu_small 1 1 1 Sega))) 0)
              (toneZeroValue (Clock (New fpu_small 1 1 1 Sega)))"
proof -
  have r: "reachable fp cfg ((Clock ^^ k) s)" if "reachable fp cfg s" for fp cfg s k
    using that by (induction k) (simp_all add: r_Clock)
  have a: "reachable fpu_small Sega c8_state"
    unfolding c8_state_def by (intro r_Write r r_New)
  have b: "get3 (toneCounter (New fpu_small 1 1 1 Sega)) 0
        \<le> max (get3 (toneReg (New fpu_small 1 1 1 Sega)) 0) (toneZeroValue (New fpu_small 1 1 1 Sega))"
    by (simp add: New_def Sega_def Let_def)
  show ?thesis
    using a b tone_counter_bound [of fpu_small Sega c8_state]
      tone_counter_bound [of fpu_small Sega "New fpu_small 1 1 1 Sega"]
    by simp
qed

subsection \<open>The single-tone scenario\<close>

lemma Clock_16k: "clockDivider s = 0 \<Longrightarrow> (Clock ^^ (16 * k)) s = (internal_tick ^^ k) s"
proof (induction k)
  case 0
  show ?case by simp
next
  case (Suc k)
  have d: "clockDivider ((internal_tick ^^ k) s) = 0"
    using Suc.prems by (induction k) (simp_all add: internal_tick_frame)
  have "(Clock ^^ (16 * Suc k)) s = (Clock ^^ 16) ((Clock ^^ (16 * k)) s)"
    by (simp only: mult_Suc_right funpow_add o_apply)
  also have "\<dots> = (Clock ^^ 16) ((internal_tick ^^ k) s)"
    using Suc by simp
  also have "\<dots> = internal_tick ((internal_tick ^^ k) s)"
    by (rule Clock_16 [OF d])
  finally show ?case by simp
qed

lemma tick_trace_map: "tick_trace f n s = map (\<lambda>k. f ((internal_tick ^^ Suc k) s)) [0..<n]"
proof (induction n arbitrary: s)
  case 0
  show ?case by simp
next
  case (Suc n)
  have "map (\<lambda>k. f ((internal_tick ^^ Suc k) s)) [0..<Suc n] =
        f (internal_tick s) # map (\<lambda>k. f ((internal_tick ^^ Suc k) s)) (map Suc [0..<n])"
    by (simp only: upt_conv_Cons [OF zero_less_Suc] map_Suc_upt list.map funpow.simps o_apply id_apply)
  also have "map (\<lambda>k. f ((internal_tick ^^ Suc k) s)) (map Suc [0..<n]) =
        map (\<lambda>k. f ((internal_tick ^^ Suc k) (internal_tick s))) [0..<n]"
    by (simp add: funpow_swap1 del: upt_Suc)
  finally show ?case
    using Suc.IH [of "internal_tick s"] by simp
qed

lemma Clock_trace:
  assumes "clockDivider s = 0"
  shows "map (\<lambda>k. f ((Clock ^^ (16 * k)) s)) [1..<Suc n] = tick_trace f n s"
proof -
  have "map (\<lambda>k. f ((Clock ^^ (16 * k)) s)) [1..<Suc n] =
        map (\<lambda>k. f ((internal_tick ^^ k) s)) [Suc 0..<Suc n]"
    by (simp only: Clock_16k [OF assms] One_nat_def)
  also have "\<dots> = map (\<lambda>k. f ((internal_tick ^^ k) s)) (map Suc [0..<n])"
    by (simp only: map_Suc_upt)
  also have "\<dots> = tick_trace f n s"
    by (simp add: tick_trace_map del: upt_Suc funpow.simps)
  finally show ?thesis .
qed

lemma tick_trace_num:
  "tick_trace f (numeral k) s = f (internal_tick s) # tick_trace f (pred_numeral k) (internal_tick s)"
  by (simp add: numeral_eq_Suc)

lemma c2_state_eq:
  "c2_state cf sr bs =
     (New fpu_small cf sr bs Sega)\<lparr>toneReg := (4, 0, 0), volume := (0, 15, 15, 15),
        latchedChannel := 0, latchedType := 1, gain := f32_one\<rparr>"
  by (simp add: c2_state_def New_def Sega_def SetGain_def Write_def Let_def)

lemma volumeTable_small: "volumeTable fpu_small ! 0 = 0x3F800000" "volumeTable fpu_small ! 15 = 0"
  by (simp_all add: volumeTable_def fpu_small_sel small_db_def nth_append)

text \<open>
  C2. The scenario: Sega variant, gain 1.0, writes \<open>0x84, 0x00, 0x90\<close>, then \<open>Sample()\<close>
  after each of 16 consecutive internal ticks (16 input clocks each). On the code the
  output of tone channel 0 is high for five ticks and low for five, so the samples are
  \<open>v,v,v,v,v,0,0,0,0,0,v,v,v,v,v,0\<close> with \<open>v = 1.0\<close>, for every clock frequency, sample
  rate and buffer size: \<open>Clock\<close> reloads a counter on the tick after it has reached 0,
  which makes a half-period of \<open>toneReg + 1\<close> ticks. The sequence
  \<open>v,v,v,v,0,0,0,0,v,v,v,v,0,0,0,0\<close> of the claim is not what the code returns.
\<close>

theorem single_tone_trace:
  "map (\<lambda>k. get3 (toneOutput ((Clock ^^ (16 * k)) (c2_state cf sr bs))) 0) [1..<17] =
     [True, True, True, True, True, False, False, False, False, False,
      True, True, True, True, True, False]
   \<and> map (\<lambda>k. Sample fpu_small ((Clock ^^ (16 * k)) (c2_state cf sr bs))) [1..<17] =
     map Some [f32_one, f32_one, f32_one, f32_one, f32_one, 0, 0, 0, 0, 0,
               f32_one, f32_one, f32_one, f32_one, f32_one, 0]"
proof -
  have d: "clockDivider (c2_state cf sr bs) = 0"
    by (simp add: c2_state_eq New_def Let_def)
  have n: "(17 :: nat) = Suc 16"
    by simp
  have 1: "tick_trace (\<lambda>s. get3 (toneOutput s) 0) 16 (c2_state cf sr bs) =
     [True, True, True, True, True, False, False, False, False, False,
      True, True, True, True, True, False]"
    by (simp add: c2_state_eq New_def Sega_def tick_defs tick_trace_num)
  have 2: "tick_trace (Sample fpu_small) 16 (c2_state cf sr bs) =
     map Some [f32_one, f32_one, f32_one, f32_one, f32_one, 0, 0, 0, 0, 0,
               f32_one, f32_one, f32_one, f32_one, f32_one, 0]"
    apply (simp add: c2_state_eq New_def Sega_def tick_defs tick_trace_num)
    apply (simp add: Sample_def sample_add_def vol_lookup_def volumeTable_small f32_one_def)
    apply (simp add: fpu_defs)
    done
  have a: "map (\<lambda>k. get3 (toneOutput ((Clock ^^ (16 * k)) (c2_state cf sr bs))) 0) [1..<Suc 16] =
      tick_trace (\<lambda>s. get3 (toneOutput s) 0) 16 (c2_state cf sr bs)"
    by (rule Clock_trace [OF d, where f = "\<lambda>s. get3 (toneOutput s) 0"])
  have b: "map (\<lambda>k. Sample fpu_small ((Clock ^^ (16 * k)) (c2_state cf sr bs))) [1..<Suc 16] =
      tick_trace (Sample fpu_small) 16 (c2_state cf sr bs)"
    by (rule Clock_trace [OF d, where f = "Sample fpu_small"])
  show ?thesis
    unfolding n a b using 1 2 by (rule conjI)
qed

subsection \<open>Saving and loading a snapshot\<close>

lemma le16_roundtrip:
  "ucast (ucast v :: u8) OR push_bit 8 (ucast (ucast (drop_bit 8 v) :: u8)) = (v :: u16)"
  by (rule bit_word_eqI) (auto simp: bit_simps)

lemma le32_roundtrip:
  "ucast (ucast v :: u8) OR push_bit 8 (ucast (ucast (drop_bit 8 v) :: u8))
     OR push_bit 16 (ucast (ucast (drop_bit 16 v) :: u8))
     OR push_bit 24 (ucast (ucast (drop_bit 24 v) :: u8)) = (v :: u32)"
  (is "?L = _")
proof (rule bit_word_eqI)
  fix n :: nat
  assume "n < LENGTH(32)"
  then consider "n < 8" | "8 \<le> n \<and> n < 16" | "16 \<le> n \<and> n < 24" | "24 \<le> n \<and> n < 32"
    by fastforce
  then show "bit ?L n = bit v n"
    by cases (auto simp: bit_simps)
qed

lemma le64_roundtrip:
  "ucast (ucast v :: u8) OR push_bit 8 (ucast (ucast (drop_bit 8 v) :: u8))
     OR push_bit 16 (ucast (ucast (drop_bit 16 v) :: u8))
     OR push_bit 24 (ucast (ucast (drop_bit 24 v) :: u8))
     OR push_bit 32 (ucast (ucast (drop_bit 32 v) :: u8))
     OR push_bit 40 (ucast (ucast (drop_bit 40 v) :: u8))
     OR push_bit 48 (ucast (ucast (drop_bit 48 v) :: u8))
     OR push_bit 56 (ucast (ucast (drop_bit 56 v) :: u8)) = (v :: u64)"
  (is "?L = _")
proof (rule bit_word_eqI)
  fix n :: nat
  assume "n < LENGTH(64)"
  then consider "n < 8" | "8 \<le> n \<and> n < 16" | "16 \<le> n \<and> n < 24" | "24 \<le> n \<and> n < 32"
    | "32 \<le> n \<and> n < 40" | "40 \<le> n \<and> n < 48" | "48 \<le> n \<and> n < 56" | "56 \<le> n \<and> n < 64"
    by fastforce
  then show "bit ?L n = bit v n"
    by cases (auto simp: bit_simps)
qed

lemma sint32_roundtrip:
  "- (2 ^ 31) \<le> c \<Longrightarrow> c < 2 ^ 31 \<Longrightarrow> sint (word_of_int c :: u32) = c"
  by (simp add: sint_sbintrunc' signed_take_bit_int_eq_self)

lemma boolByte_nonzero: "(boolByte b \<noteq> 0) = b"
  by (simp add: boolByte_def)

lemma arr3_eta: "(get3 t 0, get3 t (Suc 0), get3 t 2) = t"
  by (cases t) simp

lemma arr4_eta: "(get4 t 0, get4 t (Suc 0), get4 t 2, get4 t 3) = t"
  by (cases t) simp

lemma set3_all: "set3 (set3 (set3 t 0 a) (Suc 0) b) 2 c = (a, b, c)"
  by (cases t) simp

lemma set4_all: "set4 (set4 (set4 (set4 t 0 a) (Suc 0) b) 2 c) 3 d = (a, b, c, d)"
  by (cases t) simp

lemma Uint16_eq:
  "b ! off = ucast v \<Longrightarrow> b ! off1 = ucast (drop_bit 8 v) \<Longrightarrow> off1 = off + 1 \<Longrightarrow>
   Uint16 b off = v"
  unfolding Uint16_def by (simp only: le16_roundtrip)

lemma Uint32_eq:
  "b ! off = ucast v \<Longrightarrow> b ! off1 = ucast (drop_bit 8 v) \<Longrightarrow>
   b ! off2 = ucast (drop_bit 16 v) \<Longrightarrow> b ! off3 = ucast (drop_bit 24 v) \<Longrightarrow>
   off1 = off + 1 \<Longrightarrow> off2 = off + 2 \<Longrightarrow> off3 = off + 3 \<Longrightarrow>
   Uint32 b off = v"
  unfolding Uint32_def by (simp only: le32_roundtrip)

lemma Uint64_eq:
  "b ! off = ucast v \<Longrightarrow> b ! off1 = ucast (drop_bit 8 v) \<Longrightarrow>
   b ! off2 = ucast (drop_bit 16 v) \<Longrightarrow> b ! off3 = ucast (drop_bit 24 v) \<Longrightarrow>
   b ! off4 = ucast (drop_bit 32 v) \<Longrightarrow> b ! off5 = ucast (drop_bit 40 v) \<Longrightarrow>
   b ! off6 = ucast (drop_bit 48 v) \<Longrightarrow> b ! off7 = ucast (drop_bit 56 v) \<Longrightarrow>
   off1 = off + 1 \<Longrightarrow> off2 = off + 2 \<Longrightarrow> off3 = off + 3 \<Longrightarrow> off4 = off + 4 \<Longrightarrow>
   off5 = off + 5 \<Longrightarrow> off6 = off + 6 \<Longrightarrow> off7 = off + 7 \<Longrightarrow>
   Uint64 b off = v"
  unfolding Uint64_def by (simp only: le64_roundtrip)

lemmas ser_defs = Serialize_def Let_def PutUint16_def PutUint32_def PutUint64_def
  sn76489SerializeSize_def serializeVersion_def

lemma Serialize_None: "40 \<le> length buf \<Longrightarrow> snd (Serialize S buf) = None"
  by (simp add: Serialize_def Let_def sn76489SerializeSize_def)

lemma Serialize_length: "length (fst (Serialize S buf)) = length buf"
  by (simp add: ser_defs)

lemma nth_upd_2: "2 < length xs \<Longrightarrow> xs[Suc (Suc 0) := b] ! 2 = b"
  unfolding numeral_2_eq_2 by simp

lemma Serialize_bytes:
  assumes "40 \<le> length buf"
  shows "fst (Serialize S buf) ! 0 = 1"
    "fst (Serialize S buf) ! 1 = ucast (get3 (toneReg S) 0)"
    "fst (Serialize S buf) ! 2 = ucast (drop_bit 8 (get3 (toneReg S) 0))"
    "fst (Serialize S buf) ! 3 = ucast (get3 (toneReg S) 1)"
    "fst (Serialize S buf) ! 4 = ucast (drop_bit 8 (get3 (toneReg S) 1))"
    "fst (Serialize S buf) ! 5 = ucast (get3 (toneReg S) 2)"
    "fst (Serialize S buf) ! 6 = ucast (drop_bit 8 (get3 (toneReg S) 2))"
    "fst (Serialize S buf) ! 7 = ucast (get3 (toneCounter S) 0)"
    "fst (Serialize S buf) ! 8 = ucast (drop_bit 8 (get3 (toneCounter S) 0))"
    "fst (Serialize S buf) ! 9 = ucast (get3 (toneCounter S) 1)"
    "fst (Serialize S buf) ! 10 = ucast (drop_bit 8 (get3 (toneCounter S) 1))"
    "fst (Serialize S buf) ! 11 = ucast (get3 (toneCounter S) 2)"
    "fst (Serialize S buf) ! 12 = ucast (drop_bit 8 (get3 (toneCounter S) 2))"
    "fst (Serialize S buf) ! 13 = boolByte (get3 (toneOutput S) 0)"
    "fst (Serialize S buf) ! 14 = boolByte (get3 (toneOutput S) 1)"
    "fst (Serialize S buf) ! 15 = boolByte (get3 (toneOutput S) 2)"
    "fst (Serialize S buf) ! 16 = noiseReg S"
    "fst (Serialize S buf) ! 17 = ucast (noiseCounter S)"
    "fst (Serialize S buf) ! 18 = ucast (drop_bit 8 (noiseCounter S))"
    "fst (Serialize S buf) ! 19 = ucast (noiseShift S)"
    "fst (Serialize S buf) ! 20 = ucast (drop_bit 8 (noiseShift S))"
    "fst (Serialize S buf) ! 21 = boolByte (noiseOut S)"
    "fst (Serialize S buf) ! 22 = get4 (volume S) 0"
    "fst (Serialize S buf) ! 23 = get4 (volume S) 1"
    "fst (Serialize S buf) ! 24 = get4 (volume S) 2"
    "fst (Serialize S buf) ! 25 = get4 (volume S) 3"
    "fst (Serialize S buf) ! 26 = latchedChannel S"
    "fst (Serialize S buf) ! 27 = latchedType S"
    "fst (Serialize S buf) ! 28 = ucast (word_of_int (clockDivider S) :: u32)"
    "fst (Serialize S buf) ! 29 = ucast (drop_bit 8 (word_of_int (clockDivider S) :: u32))"
    "fst (Serialize S buf) ! 30 = ucast (drop_bit 16 (word_of_int (clockDivider S) :: u32))"
    "fst (Serialize S buf) ! 31 = ucast (drop_bit 24 (word_of_int (clockDivider S) :: u32))"
    "fst (Serialize S buf) ! 32 = ucast (clockCounter S)"
    "fst (Serialize S buf) ! 33 = ucast (drop_bit 8 (clockCounter S))"
    "fst (Serialize S buf) ! 34 = ucast (drop_bit 16 (clockCounter S))"
    "fst (Serialize S buf) ! 35 = ucast (drop_bit 24 (clockCounter S))"
    "fst (Serialize S buf) ! 36 = ucast (drop_bit 32 (clockCounter S))"
    "fst (Serialize S buf) ! 37 = ucast (drop_bit 40 (clockCounter S))"
    "fst (Serialize S buf) ! 38 = ucast (drop_bit 48 (clockCounter S))"
    "fst (Serialize S buf) ! 39 = ucast (drop_bit 56 (clockCounter S))"
proof -
  have ne: "buf \<noteq> []"
    using assms by auto
  show "fst (Serialize S buf) ! 2 = ucast (drop_bit 8 (get3 (toneReg S) 0))"
    using assms by (simp add: ser_defs nth_upd_2)
  show "fst (Serialize S buf) ! 0 = 1"
    "fst (Serialize S buf) ! 1 = ucast (get3 (toneReg S) 0)"
    "fst (Serialize S buf) ! 3 = ucast (get3 (toneReg S) 1)"
    "fst (Serialize S buf) ! 4 = ucast (drop_bit 8 (get3 (toneReg S) 1))"
    "fst (Serialize S buf) ! 5 = ucast (get3 (toneReg S) 2)"
    "fst (Serialize S buf) ! 6 = ucast (drop_bit 8 (get3 (toneReg S) 2))"
    "fst (Serialize S buf) ! 7 = ucast (get3 (toneCounter S) 0)"
    "fst (Serialize S buf) ! 8 = ucast (drop_bit 8 (get3 (toneCounter S) 0))"
    "fst (Serialize S buf) ! 9 = ucast (get3 (toneCounter S) 1)"
    "fst (Serialize S buf) ! 10 = ucast (drop_bit 8 (get3 (toneCounter S) 1))"
    "fst (Serialize S buf) ! 11 = ucast (get3 (toneCounter S) 2)"
    "fst (Serialize S buf) ! 12 = ucast (drop_bit 8 (get3 (toneCounter S) 2))"
    "fst (Serialize S buf) ! 13 = boolByte (get3 (toneOutput S) 0)"
    "fst (Serialize S buf) ! 14 = boolByte (get3 (toneOutput S) 1)"
    "fst (Serialize S buf) ! 15 = boolByte (get3 (toneOutput S) 2)"
    "fst (Serialize S buf) ! 16 = noiseReg S"
    "fst (Serialize S buf) ! 17 = ucast (noiseCounter S)"
    "fst (Serialize S buf) ! 18 = ucast (drop_bit 8 (noiseCounter S))"
    "fst (Serialize S buf) ! 19 = ucast (noiseShift S)"
    "fst (Serialize S buf) ! 20 = ucast (drop_bit 8 (noiseShift S))"
    "fst (Serialize S buf) ! 21 = boolByte (noiseOut S)"
    "fst (Serialize S buf) ! 22 = get4 (volume S) 0"
    "fst (Serialize S buf) ! 23 = get4 (volume S) 1"
    "fst (Serialize S buf) ! 24 = get4 (volume S) 2"
    "fst (Serialize S buf) ! 25 = get4 (volume S) 3"
    "fst (Serialize S buf) ! 26 = latchedChannel S"
    "fst (Serialize S buf) ! 27 = latchedType S"
    "fst (Serialize S buf) ! 28 = ucast (word_of_int (clockDivider S) :: u32)"
    "fst (Serialize S buf) ! 29 = ucast (drop_bit 8 (word_of_int (clockDivider S) :: u32))"
    "fst (Serialize S buf) ! 30 = ucast (drop_bit 16 (word_of_int (clockDivider S) :: u32))"
    "fst (Serialize S buf) ! 31 = ucast (drop_bit 24 (word_of_int (clockDivider S) :: u32))"
    "fst (Serialize S buf) ! 32 = ucast (clockCounter S)"
    "fst (Serialize S buf) ! 33 = ucast (drop_bit 8 (clockCounter S))"
    "fst (Serialize S buf) ! 34 = ucast (drop_bit 16 (clockCounter S))"
    "fst (Serialize S buf) ! 35 = ucast (drop_bit 24 (clockCounter S))"
    "fst (Serialize S buf) ! 36 = ucast (drop_bit 32 (clockCounter S))"
    "fst (Serialize S buf) ! 37 = ucast (drop_bit 40 (clockCounter S))"
    "fst (Serialize S buf) ! 38 = ucast (drop_bit 48 (clockCounter S))"
    "fst (Serialize S buf) ! 39 = ucast (drop_bit 56 (clockCounter S))"
    using assms ne by (simp_all add: ser_defs)
qed

lemma Deserialize_Serialize:
  assumes "40 \<le> length buf" and "- (2 ^ 31) \<le> clockDivider S" and "clockDivider S < 2 ^ 31"
  shows "Deserialize (fst (Serialize S buf)) N =
    (N\<lparr>toneReg := toneReg S, toneCounter := toneCounter S, toneOutput := toneOutput S,
       noiseReg := noiseReg S, noiseCounter := noiseCounter S, noiseShift := noiseShift S,
       noiseOut := noiseOut S, volume := volume S, latchedChannel := latchedChannel S,
       latchedType := latchedType S, clockDivider := clockDivider S,
       clockCounter := clockCounter S, bufferPos := 0\<rparr>, None)"
proof -
  define B where "B = fst (Serialize S buf)"
  note b = Serialize_bytes [OF assms(1), of S, folded B_def]
  have len: "\<not> length B < 40"
    using assms(1) by (simp add: B_def Serialize_length)
  have r: "Uint16 B 1 = get3 (toneReg S) 0" "Uint16 B 3 = get3 (toneReg S) 1"
    "Uint16 B 5 = get3 (toneReg S) 2"
    by (rule Uint16_eq [OF b(2) b(3)], simp, rule Uint16_eq [OF b(4) b(5)], simp,
        rule Uint16_eq [OF b(6) b(7)], simp)
  have c: "Uint16 B 7 = get3 (toneCounter S) 0" "Uint16 B 9 = get3 (toneCounter S) 1"
    "Uint16 B 11 = get3 (toneCounter S) 2"
    by (rule Uint16_eq [OF b(8) b(9)], simp, rule Uint16_eq [OF b(10) b(11)], simp,
        rule Uint16_eq [OF b(12) b(13)], simp)
  have n: "Uint16 B 17 = noiseCounter S" "Uint16 B 19 = noiseShift S"
    by (rule Uint16_eq [OF b(18) b(19)], simp, rule Uint16_eq [OF b(20) b(21)], simp)
  have "Uint32 B 28 = word_of_int (clockDivider S)"
    by (rule Uint32_eq [OF b(29) b(30) b(31) b(32)]) simp_all
  then have d: "sint (Uint32 B 28) = clockDivider S"
    using assms(2,3) by (simp only: sint32_roundtrip)
  have k: "Uint64 B 32 = clockCounter S"
    by (rule Uint64_eq [OF b(33) b(34) b(35) b(36) b(37) b(38) b(39) b(40)]) simp_all
  have o: "(B ! 13 \<noteq> 0) = get3 (toneOutput S) 0" "(B ! 14 \<noteq> 0) = get3 (toneOutput S) 1"
    "(B ! 15 \<noteq> 0) = get3 (toneOutput S) 2" "(B ! 21 \<noteq> 0) = noiseOut S"
    by (simp_all only: b boolByte_nonzero)
  have v0: "B ! 0 = 1" "B ! 16 = noiseReg S" "B ! 22 = get4 (volume S) 0"
    "B ! 23 = get4 (volume S) 1" "B ! 24 = get4 (volume S) 2" "B ! 25 = get4 (volume S) 3"
    "B ! 26 = latchedChannel S" "B ! 27 = latchedType S"
    by (simp_all only: b)
  have D: "Deserialize B N =
     (let s1 = fold (\<lambda>i t. t\<lparr>toneReg := set3 (toneReg t) i (Uint16 B (1 + i * 2))\<rparr>) [0, 1, 2] N;
             s2 = fold (\<lambda>i t. t\<lparr>toneCounter := set3 (toneCounter t) i (Uint16 B (7 + i * 2))\<rparr>)
                    [0, 1, 2] s1;
             s3 = fold (\<lambda>i t. t\<lparr>toneOutput := set3 (toneOutput t) i (B ! (13 + i) \<noteq> 0)\<rparr>)
                    [0, 1, 2] s2;
             s4 = s3\<lparr>noiseReg := B ! 16\<rparr>;
             s5 = s4\<lparr>noiseCounter := Uint16 B 17\<rparr>;
             s6 = s5\<lparr>noiseShift := Uint16 B 19\<rparr>;
             s7 = s6\<lparr>noiseOut := (B ! 21 \<noteq> 0)\<rparr>;
             s8 = fold (\<lambda>i t. t\<lparr>volume := set4 (volume t) i (B ! (22 + i))\<rparr>) [0, 1, 2, 3] s7;
             s9 = s8\<lparr>latchedChannel := B ! 26\<rparr>;
             s10 = s9\<lparr>latchedType := B ! 27\<rparr>;
             s11 = s10\<lparr>clockDivider := sint (Uint32 B 28)\<rparr>;
             s12 = s11\<lparr>clockCounter := Uint64 B 32\<rparr>
         in (s12\<lparr>bufferPos := 0\<rparr>, None))"
    using len v0(1) by (simp only: Deserialize_def sn76489SerializeSize_def serializeVersion_def
        if_False simp_thms)
  show ?thesis
    unfolding B_def [symmetric] D
    apply (simp add: Let_def)
    apply (simp only: r [unfolded One_nat_def] c [unfolded One_nat_def] n d k
        o [unfolded One_nat_def] v0 [unfolded One_nat_def] set3_all set4_all arr3_eta arr4_eta)
    done
qed

subsection \<open>A snapshot taken between two noise shifts\<close>

lemma run_script_clocks:
  "run_script fp (replicate n CallClock @ cs) s = run_script fp cs ((Clock ^^ n) s)"
  by (induction n arbitrary: s) (simp_all add: funpow_swap1)

lemma internal_tick_funpow_divider:
  "clockDivider ((internal_tick ^^ k) s) = clockDivider s"
  by (induction k) (simp_all add: internal_tick_frame)

lemma Clock_927:
  assumes "clockDivider s = 0"
  shows "(Clock ^^ 927) s = ((internal_tick ^^ 57) s)\<lparr>clockDivider := 15\<rparr>"
proof -
  have "(927 :: nat) = 15 + 16 * 57"
    by simp
  then have "(Clock ^^ 927) s = (Clock ^^ 15) ((Clock ^^ (16 * 57)) s)"
    by (simp only: funpow_add o_apply)
  also have "(Clock ^^ (16 * 57)) s = (internal_tick ^^ 57) s"
    by (rule Clock_16k [OF assms])
  also have "(Clock ^^ 15) ((internal_tick ^^ 57) s) = ((internal_tick ^^ 57) s)\<lparr>clockDivider := 15\<rparr>"
    using Clock_count [of "(internal_tick ^^ 57) s" 15] assms
    by (simp add: internal_tick_funpow_divider)
  finally show ?thesis .
qed

lemma c1_script_eq:
  assumes "clockDivider s = 0"
  shows "run_script fpu_small c1_script s =
         map_option fst (run_step fpu_small (((internal_tick ^^ 57) s)\<lparr>clockDivider := 15\<rparr>, 0))"
proof -
  have "run_script fpu_small c1_script s = run_script fpu_small [CallRun 1] ((Clock ^^ 927) s)"
    unfolding c1_script_def by (rule run_script_clocks)
  also have "\<dots> = map_option fst (run_step fpu_small ((Clock ^^ 927) s, 0))"
    by (cases "run_step fpu_small ((Clock ^^ 927) s, 0)") (simp_all add: Run_def run_loop_1)
  finally show ?thesis
    by (simp only: Clock_927 [OF assms])
qed

lemma c1_new_eq:
  "c1_new = \<lparr>toneReg = (0, 0, 0), toneCounter = (0, 0, 0),
          toneOutput = (False, False, False), noiseReg = 0, noiseCounter = 0,
          noiseShift = 0x8000, noiseToggle = False, noiseOut = False,
          volume = (15, 15, 15, 15), latchedChannel = 0, latchedType = 0,
          feedbackShift = 15, lfsrInitial = 0x8000, whiteNoiseTaps = 9,
          toneZeroValue = 1, clocksPerSample = 0x3FF0000000000000,
          clockCounter = 0, clockDivider = 0, gain = f32_quarter,
          channelBuffers = ([0], [0], [0], [0]), mixBuffer = [0], bufferPos = 0\<rparr>"
  by (simp add: c1_new_def New_def Sega_def fpu_defs)

lemma c1_S_eq:
  "c1_S = c1_new\<lparr>toneCounter := (1, 1, 1), toneOutput := (True, True, True),
            noiseReg := 3, noiseCounter := 1, noiseShift := 0x4000, noiseToggle := True,
            volume := (15, 15, 15, 0), latchedChannel := 3\<rparr>"
proof -
  have d: "clockDivider (Write 0xE3 (Write 0xF0 c1_new)) = 0"
    by (simp add: c1_new_eq Write_def Let_def)
  show ?thesis
    unfolding c1_S_def Clock_16 [OF d]
    by (simp add: c1_new_eq Write_def tick_defs)
qed

lemma c1_S'_eq: "c1_S' = c1_S\<lparr>noiseToggle := False\<rparr>"
proof -
  have "Deserialize (fst (Serialize c1_S (replicate 40 0))) c1_new =
    (c1_new\<lparr>toneReg := toneReg c1_S, toneCounter := toneCounter c1_S, toneOutput := toneOutput c1_S,
       noiseReg := noiseReg c1_S, noiseCounter := noiseCounter c1_S, noiseShift := noiseShift c1_S,
       noiseOut := noiseOut c1_S, volume := volume c1_S, latchedChannel := latchedChannel c1_S,
       latchedType := latchedType c1_S, clockDivider := clockDivider c1_S,
       clockCounter := clockCounter c1_S, bufferPos := 0\<rparr>, None)"
    by (rule Deserialize_Serialize) (simp_all add: c1_S_eq c1_new_eq)
  then show ?thesis
    by (simp add: c1_S'_def c1_S_eq c1_new_eq)
qed

lemmas run_defs = run_step_def emit_sample_def emit_chan_def chan_value_def store_def
  vol_lookup_def Clock_eq

lemma c1_run_S:
  "map_option (\<lambda>s. (channelBuffers s, bufferPos s)) (run_script fpu_small c1_script c1_S) =
     Some (([0], [0], [0], [0]), 1)"
proof -
  have d: "clockDivider c1_S = 0"
    by (simp add: c1_S_eq c1_new_eq)
  show ?thesis
    unfolding c1_script_eq [OF d]
    apply (simp add: c1_S_eq c1_new_eq funpow_num tick_defs)
    apply (simp add: run_defs internal_tick_def clock_noise_def clock_tone_def noise_reload_def
        lfsr_shift_def lfsr_feedback_def volumeTable_small)
    apply (simp add: fpu_defs)
    apply (simp add: emit_sample_def emit_chan_def chan_value_def store_def vol_lookup_def
        volumeTable_small)
    done
qed

lemma c1_run_S':
  "map_option (\<lambda>s. (channelBuffers s, bufferPos s)) (run_script fpu_small c1_script c1_S') =
     Some (([0], [0], [0], [0x3F800000]), 1)"
proof -
  have d: "clockDivider c1_S' = 0"
    by (simp add: c1_S'_eq c1_S_eq c1_new_eq)
  show ?thesis
    unfolding c1_script_eq [OF d]
    apply (simp add: c1_S'_eq c1_S_eq c1_new_eq funpow_num tick_defs)
    apply (simp add: run_defs internal_tick_def clock_noise_def clock_tone_def noise_reload_def
        lfsr_shift_def lfsr_feedback_def volumeTable_small)
    apply (simp add: fpu_defs)
    apply (simp add: emit_sample_def emit_chan_def chan_value_def store_def vol_lookup_def
        volumeTable_small)
    done
qed

text \<open>
  C1. The round trip does not restore the engine. The state \<open>c1_S\<close> is reached from \<open>New\<close>
  by two writes and sixteen clocks and has \<open>noiseToggle\<close> set. \<open>Serialize\<close> and then
  \<open>Deserialize\<close> into a fresh engine built with the same parameters both succeed and
  give \<open>c1_S'\<close>, which is \<open>c1_S\<close> with \<open>noiseToggle\<close> cleared. The script of 927 clocks
  and \<open>Run(1)\<close> then stores \<open>0.0\<close> in the noise channel's buffer on \<open>c1_S\<close> and \<open>1.0\<close> on
  \<open>c1_S'\<close>: the per-channel buffers differ.
\<close>

theorem snapshot_drops_noiseToggle:
  "reach_wc c1_new c1_S
   \<and> noiseToggle c1_S
   \<and> snd (Serialize c1_S (replicate 40 0)) = None
   \<and> snd (Deserialize (fst (Serialize c1_S (replicate 40 0))) c1_new) = None
   \<and> c1_S' = c1_S\<lparr>noiseToggle := False\<rparr>
   \<and> map_option channelBuffers (run_script fpu_small c1_script c1_S)
         = Some ([0], [0], [0], [0])
   \<and> map_option channelBuffers (run_script fpu_small c1_script c1_S')
         = Some ([0], [0], [0], [f32_one])"
proof -
  have r: "reach_wc n ((Clock ^^ k) s)" if "reach_wc n s" for n s k
    using that by (induction k) (simp_all add: wc_Clock)
  have 1: "reach_wc c1_new c1_S"
    unfolding c1_S_def by (intro r wc_Write wc_New)
  have 2: "noiseToggle c1_S"
    by (simp add: c1_S_eq)
  have 3: "snd (Serialize c1_S (replicate 40 0)) = None"
    by (rule Serialize_None) simp
  have "length (fst (Serialize c1_S (replicate 40 0))) = 40"
    by (simp add: Serialize_length)
  moreover have "fst (Serialize c1_S (replicate 40 0)) ! 0 = 1"
    by (rule Serialize_bytes) simp
  ultimately have 4: "snd (Deserialize (fst (Serialize c1_S (replicate 40 0))) c1_new) = None"
    by (simp add: Deserialize_def Let_def sn76489SerializeSize_def serializeVersion_def)
  have 5: "map_option channelBuffers (run_script fpu_small c1_script c1_S) = Some ([0], [0], [0], [0])"
    using c1_run_S by (cases "run_script fpu_small c1_script c1_S") simp_all
  have 6: "map_option channelBuffers (run_script fpu_small c1_script c1_S')
      = Some ([0], [0], [0], [f32_one])"
    using c1_run_S' by (cases "run_script fpu_small c1_script c1_S'") (simp_all add: f32_one_def)
  show ?thesis
    using 1 2 3 4 5 6 c1_S'_eq by blast
qed

end
